theory Spec2Isabelle
  imports Complex_Main "HOL-Library.AList"
begin

section \<open>Python values, dictionaries and exceptions\<close>

text \<open>
  The module \<open>ordinal_tsf/session.py\<close> moves values around without computing on them:
  raw predictions are dictionaries from field names to array-like values, flags are read
  through \<open>dict.get(key, False)\<close>, and the only operations applied to a value are its
  truth value, \<open>len\<close>, indexing by a position, numpy's \<open>take(-1, axis=-1)\<close> and the
  identity test \<open>v is None\<close>.  The value type is therefore a parameter \<open>'v\<close>, and the
  operations are the fields of \<open>pyops\<close>; each of the first four may raise, \<open>is None\<close> cannot.
\<close>

datatype exn =
    AssertionError
  | KeyError string
  | IndexError
  | AttributeError string
  | FileExistsError
  | NotADirectoryError
  | Raised string

type_synonym 'v dict = "(string \<times> 'v) list"

record 'v pyops =
  truth :: "'v \<Rightarrow> exn + bool"
  getitem :: "'v \<Rightarrow> nat \<Rightarrow> exn + 'v"
  len :: "'v \<Rightarrow> exn + nat"
  take_last :: "'v \<Rightarrow> exn + 'v"
  is_none :: "'v \<Rightarrow> bool"

text \<open>\<open>d[k]\<close>: the value stored under \<open>k\<close>, or \<open>KeyError\<close>.\<close>

definition subscript :: "'v dict \<Rightarrow> string \<Rightarrow> exn + 'v" where
  "subscript d k = (case map_of d k of None \<Rightarrow> Inl (KeyError k) | Some v \<Rightarrow> Inr v)"

text \<open>\<open>if d.get(k, False):\<close> a missing key counts as false, a present one by its truth value.\<close>

definition get_flag :: "'v pyops \<Rightarrow> 'v dict \<Rightarrow> string \<Rightarrow> exn + bool" where
  "get_flag ops d k = (case map_of d k of None \<Rightarrow> Inr False | Some v \<Rightarrow> truth ops v)"

text \<open>\<open>xs[i]\<close> on a Python list with a non-negative position.\<close>

definition list_index :: "'a list \<Rightarrow> nat \<Rightarrow> exn + 'a" where
  "list_index xs i = (if i < length xs then Inr (xs ! i) else Inl IndexError)"

section \<open>The dataset and the prediction wrappers\<close>

record ('v, 'f, 'a) dataset =
  train_frames :: 'f
  val_ts :: "'a list"
  test_ts :: "'a list"
  optional_params :: "'v dict"
  optional_params_list :: "'v dict list"

text \<open>
  Modelled from the spec: the prediction classes of \<open>ordinal_tsf.dataset\<close> (not among the
  sources) "wrap raw model output into typed prediction objects".  A wrapper records the
  class that was called and the arguments it was called with; one constructor per call
  shape found in \<open>build_prediction\<close>.  \<open>OrdinalPrediction\<close> is called both with three
  positional arguments and with the dictionary as keyword arguments, \<open>GaussianPrediction\<close>
  both as \<open>GaussianPrediction(None, prediction)\<close> and with keyword arguments.
\<close>

datatype 'v prediction =
    MultivarVBGMMPrediction 'v 'v
  | MultivariateOrdinalPrediction 'v "'v dict"
  | PredictionList "'v prediction list"
  | OrdinalPrediction 'v 'v 'v
  | OrdinalArrayPrediction "'v dict"
  | GaussianPrediction_None "'v dict"
  | OrdinalPrediction_kw "'v dict"
  | GaussianPrediction_kw "'v dict"

section \<open>\<open>StrategyExperiment.build_prediction\<close>\<close>

text \<open>
  The branches of the cascade, named in the order of the source.  \<open>build_prediction\<close>
  returns the wrapper or the exception, the caller's dictionary as the call leaves it (the
  Python mutates it in place), and the list of the branches whose bodies were entered, in
  the order they were entered.
\<close>

datatype branch =
    Mixture | ArQuant | IsList | IsArray | Centroids | Sarimax | Attractor | Ordinal | Gaussian

text \<open>\<open>return MultivarVBGMMPrediction(prediction['draws'], prediction['mvar_x_ranges'])\<close>\<close>

definition mixture_body :: "'v dict \<Rightarrow> exn + 'v prediction" where
  "mixture_body prediction =
     (case subscript prediction ''draws'' of
        Inl e \<Rightarrow> Inl e
      | Inr d \<Rightarrow>
          (case subscript prediction ''mvar_x_ranges'' of
             Inl e \<Rightarrow> Inl e
           | Inr r \<Rightarrow> Inr (MultivarVBGMMPrediction d r)))"

text \<open>\<open>prediction[k] = prediction[k][0]\<close>\<close>

definition first_element :: "'v pyops \<Rightarrow> string \<Rightarrow> 'v dict \<Rightarrow> exn + 'v dict" where
  "first_element ops k prediction =
     (case subscript prediction k of
        Inl e \<Rightarrow> Inl e
      | Inr v \<Rightarrow>
          (case getitem ops v 0 of
             Inl e \<Rightarrow> Inl e
           | Inr v0 \<Rightarrow> Inr (AList.update k v0 prediction)))"

text \<open>
  The autoregressive-quantile branch: two in-place replacements, then the wrapper.  An
  exception in the second replacement leaves the first one done.
\<close>

definition ar_quant_body ::
  "'v pyops \<Rightarrow> 'v dict \<Rightarrow> 'v dict \<Rightarrow> (exn + 'v prediction) \<times> 'v dict" where
  "ar_quant_body ops prediction pred_args =
     (case first_element ops ''ordinal_pdf'' prediction of
        Inl e \<Rightarrow> (Inl e, prediction)
      | Inr p1 \<Rightarrow>
          (case first_element ops ''draws'' p1 of
             Inl e \<Rightarrow> (Inl e, p1)
           | Inr p2 \<Rightarrow>
               (case subscript pred_args ''ar_quant'' of
                  Inl e \<Rightarrow> (Inl e, p2)
                | Inr q \<Rightarrow> (Inr (MultivariateOrdinalPrediction q p2), p2))))"

text \<open>One element of the list comprehension of the list branch.\<close>

definition list_item ::
  "'v pyops \<Rightarrow> ('v, 'f, 'a) dataset \<Rightarrow> 'v dict \<Rightarrow> nat \<Rightarrow> exn + 'v prediction" where
  "list_item ops ds prediction i_ar =
     (case subscript prediction ''ordinal_pdf'' of
        Inl e \<Rightarrow> Inl e
      | Inr pdf \<Rightarrow>
     (case getitem ops pdf i_ar of
        Inl e \<Rightarrow> Inl e
      | Inr pdf_i \<Rightarrow>
     (case subscript prediction ''draws'' of
        Inl e \<Rightarrow> Inl e
      | Inr dr \<Rightarrow>
     (case getitem ops dr i_ar of
        Inl e \<Rightarrow> Inl e
      | Inr dr_i \<Rightarrow>
     (case list_index (optional_params_list ds) i_ar of
        Inl e \<Rightarrow> Inl e
      | Inr params \<Rightarrow>
     (case subscript params ''bins'' of
        Inl e \<Rightarrow> Inl e
      | Inr bins \<Rightarrow> Inr (OrdinalPrediction pdf_i dr_i bins)))))))"

fun list_items ::
  "'v pyops \<Rightarrow> ('v, 'f, 'a) dataset \<Rightarrow> 'v dict \<Rightarrow> nat list \<Rightarrow> exn + 'v prediction list" where
  "list_items ops ds prediction [] = Inr []"
| "list_items ops ds prediction (i_ar # rest) =
     (case list_item ops ds prediction i_ar of
        Inl e \<Rightarrow> Inl e
      | Inr x \<Rightarrow>
          (case list_items ops ds prediction rest of
             Inl e \<Rightarrow> Inl e
           | Inr xs \<Rightarrow> Inr (x # xs)))"

definition list_body ::
  "'v pyops \<Rightarrow> ('v, 'f, 'a) dataset \<Rightarrow> 'v dict \<Rightarrow> exn + 'v prediction" where
  "list_body ops ds prediction =
     (case subscript prediction ''ordinal_pdf'' of
        Inl e \<Rightarrow> Inl e
      | Inr pdf \<Rightarrow>
          (case len ops pdf of
             Inl e \<Rightarrow> Inl e
           | Inr n_ar \<Rightarrow>
               (case list_items ops ds prediction [0..<n_ar] of
                  Inl e \<Rightarrow> Inl e
                | Inr ps \<Rightarrow> Inr (PredictionList ps))))"

text \<open>\<open>prediction['bins'] = self.dataset.optional_params['bins']\<close>\<close>

definition set_bins :: "('v, 'f, 'a) dataset \<Rightarrow> 'v dict \<Rightarrow> exn + 'v dict" where
  "set_bins ds prediction =
     (case subscript (optional_params ds) ''bins'' of
        Inl e \<Rightarrow> Inl e
      | Inr b \<Rightarrow> Inr (AList.update ''bins'' b prediction))"

definition array_body ::
  "('v, 'f, 'a) dataset \<Rightarrow> 'v dict \<Rightarrow> (exn + 'v prediction) \<times> 'v dict" where
  "array_body ds prediction =
     (case set_bins ds prediction of
        Inl e \<Rightarrow> (Inl e, prediction)
      | Inr p1 \<Rightarrow> (Inr (OrdinalArrayPrediction p1), p1))"

definition centroids_body :: "'v dict \<Rightarrow> 'v dict \<Rightarrow> exn + 'v prediction" where
  "centroids_body prediction pred_args =
     (case subscript pred_args ''quant'' of
        Inl e \<Rightarrow> Inl e
      | Inr q \<Rightarrow> Inr (MultivariateOrdinalPrediction q prediction))"

text \<open>
  \<open>for k, v in prediction.items(): prediction[k] = v.take(-1, axis=-1)\<close>: the items are
  visited in the dictionary's order and each value is replaced in place; an exception stops
  the loop with the earlier fields already replaced.
\<close>

fun attractor_loop :: "'v pyops \<Rightarrow> (string \<times> 'v) list \<Rightarrow> 'v dict \<Rightarrow> exn option \<times> 'v dict" where
  "attractor_loop ops [] prediction = (None, prediction)"
| "attractor_loop ops ((k, v) # rest) prediction =
     (case take_last ops v of
        Inl e \<Rightarrow> (Some e, prediction)
      | Inr v' \<Rightarrow> attractor_loop ops rest (AList.update k v' prediction))"

definition ordinal_body ::
  "('v, 'f, 'a) dataset \<Rightarrow> 'v dict \<Rightarrow> (exn + 'v prediction) \<times> 'v dict" where
  "ordinal_body ds prediction =
     (case set_bins ds prediction of
        Inl e \<Rightarrow> (Inl e, prediction)
      | Inr p1 \<Rightarrow> (Inr (OrdinalPrediction_kw p1), p1))"

text \<open>The last two tests of the cascade, reached with or without the attractor step.\<close>

definition ordinal_or_gaussian ::
  "'v pyops \<Rightarrow> ('v, 'f, 'a) dataset \<Rightarrow> 'v dict \<Rightarrow> branch list \<Rightarrow>
   (exn + 'v prediction) \<times> 'v dict \<times> branch list" where
  "ordinal_or_gaussian ops ds prediction fired =
     (case get_flag ops (optional_params ds) ''is_ordinal'' of
        Inl e \<Rightarrow> (Inl e, prediction, fired)
      | Inr True \<Rightarrow>
          (case ordinal_body ds prediction of (r, p) \<Rightarrow> (r, p, fired @ [Ordinal]))
      | Inr False \<Rightarrow> (Inr (GaussianPrediction_kw prediction), prediction, fired @ [Gaussian]))"

definition build_prediction ::
  "'v pyops \<Rightarrow> ('v, 'f, 'a) dataset \<Rightarrow> 'v dict \<Rightarrow> 'v dict \<Rightarrow>
   (exn + 'v prediction) \<times> 'v dict \<times> branch list" where
  "build_prediction ops ds prediction pred_args =
     (case get_flag ops prediction ''mvar_x_ranges'' of
        Inl e \<Rightarrow> (Inl e, prediction, [])
      | Inr True \<Rightarrow> (mixture_body prediction, prediction, [Mixture])
      | Inr False \<Rightarrow>
     (case get_flag ops pred_args ''ar_quant'' of
        Inl e \<Rightarrow> (Inl e, prediction, [])
      | Inr True \<Rightarrow>
          (case ar_quant_body ops prediction pred_args of (r, p) \<Rightarrow> (r, p, [ArQuant]))
      | Inr False \<Rightarrow>
     (case get_flag ops (optional_params ds) ''is_list'' of
        Inl e \<Rightarrow> (Inl e, prediction, [])
      | Inr True \<Rightarrow> (list_body ops ds prediction, prediction, [IsList])
      | Inr False \<Rightarrow>
     (case get_flag ops (optional_params ds) ''is_array'' of
        Inl e \<Rightarrow> (Inl e, prediction, [])
      | Inr True \<Rightarrow>
          (case array_body ds prediction of (r, p) \<Rightarrow> (r, p, [IsArray]))
      | Inr False \<Rightarrow>
     (case get_flag ops (optional_params ds) ''centroids'' of
        Inl e \<Rightarrow> (Inl e, prediction, [])
      | Inr True \<Rightarrow> (centroids_body prediction pred_args, prediction, [Centroids])
      | Inr False \<Rightarrow>
     (case get_flag ops (optional_params ds) ''is_sarimax'' of
        Inl e \<Rightarrow> (Inl e, prediction, [])
      | Inr True \<Rightarrow> (Inr (GaussianPrediction_None prediction), prediction, [Sarimax])
      | Inr False \<Rightarrow>
     (case get_flag ops (optional_params ds) ''is_attractor'' of
        Inl e \<Rightarrow> (Inl e, prediction, [])
      | Inr True \<Rightarrow>
          (case attractor_loop ops prediction prediction of
             (Some e, p) \<Rightarrow> (Inl e, p, [Attractor])
           | (None, p) \<Rightarrow> ordinal_or_gaussian ops ds p [Attractor])
      | Inr False \<Rightarrow> ordinal_or_gaussian ops ds prediction [])))))))"


section \<open>\<open>Session.start_experiment\<close>\<close>

text \<open>
  The directory tree.  A path string is read as POSIX does: whether it starts at the root,
  and its non-empty components between slashes (so \<open>a/b\<close> and \<open>a/b/\<close> name the same
  directory).  A tree is the set of paths that are directories and the set that are regular
  files.
\<close>

type_synonym path = "bool \<times> string list"

fun split_acc :: "string \<Rightarrow> string \<Rightarrow> string list" where
  "split_acc cur [] = (if cur = [] then [] else [cur])"
| "split_acc cur (c # cs) =
     (if c = CHR ''/''
      then (if cur = [] then split_acc [] cs else cur # split_acc [] cs)
      else split_acc (cur @ [c]) cs)"

definition norm_path :: "string \<Rightarrow> path" where
  "norm_path s = (take 1 s = ''/'', split_acc [] s)"

record tree =
  dirs :: "path set"
  files :: "path set"

definition isdir :: "tree \<Rightarrow> string \<Rightarrow> bool" where
  "isdir t s = (norm_path s \<in> dirs t)"

text \<open>The path itself and all its ancestors.\<close>

definition ancestors :: "path \<Rightarrow> path list" where
  "ancestors p = map (\<lambda>n. (fst p, take n (snd p))) [0..<Suc (length (snd p))]"

text \<open>
  \<open>os.makedirs(name)\<close> with the default \<open>exist_ok=False\<close>: the leaf must not exist, no
  ancestor may be a regular file, and the missing ancestors are created with the leaf.
\<close>

definition makedirs :: "tree \<Rightarrow> string \<Rightarrow> exn + tree" where
  "makedirs t s =
     (let p = norm_path s in
      if p \<in> dirs t \<or> p \<in> files t then Inl FileExistsError
      else if list_ex (\<lambda>q. q \<in> files t) (ancestors p) then Inl NotADirectoryError
      else Inr (t\<lparr>dirs := dirs t \<union> set (ancestors p)\<rparr>))"

text \<open>A run of \<open>os.makedirs\<close> statements: the first exception ends it.\<close>

fun makedirs_seq :: "tree \<Rightarrow> string list \<Rightarrow> exn option \<times> tree" where
  "makedirs_seq t [] = (None, t)"
| "makedirs_seq t (s # rest) =
     (case makedirs t s of
        Inl e \<Rightarrow> (Some e, t)
      | Inr t' \<Rightarrow> makedirs_seq t' rest)"

record session =
  directory :: string

text \<open>
  \<open>StrategyExperiment.__init__\<close>: the dataset, an empty \<open>all_specs\<close>, the folder and the
  strategy class (here its \<open>id\<close>; the class's operations are the record \<open>strategy\<close> below).
\<close>

record ('v, 'f, 'a) strategy_experiment =
  exp_dataset :: "('v, 'f, 'a) dataset"
  all_specs :: "(string \<times> 'v dict) list"
  folder :: string
  strategy_id :: string

definition StrategyExperiment ::
  "('v, 'f, 'a) dataset \<Rightarrow> string \<Rightarrow> string \<Rightarrow> ('v, 'f, 'a) strategy_experiment" where
  "StrategyExperiment ds fld sid =
     \<lparr>exp_dataset = ds, all_specs = [], folder = fld, strategy_id = sid\<rparr>"

definition start_experiment ::
  "session \<Rightarrow> ('v, 'f, 'a) dataset \<Rightarrow> string \<Rightarrow> tree \<Rightarrow>
   (exn + ('v, 'f, 'a) strategy_experiment) \<times> tree" where
  "start_experiment self ds sid t =
     (let base = directory self @ sid;
          created =
            (if \<not> isdir t base
             then makedirs_seq t
                    [base, base @ ''/models/'', base @ ''/logs/'',
                     base @ ''/predictions/'', base @ ''/plots/'']
             else (None, t))
      in case created of
           (Some e, t') \<Rightarrow> (Inl e, t')
         | (None, t') \<Rightarrow> (Inr (StrategyExperiment ds (base @ ''/'') sid), t'))"


section \<open>\<open>StrategyExperiment.choose_model\<close>\<close>

subsection \<open>Collaborators\<close>

text \<open>
  The strategy class (\<open>ordinal_tsf.model\<close>) and the test definitions are not among the
  sources; their operations are parameters, and each call may raise.  A model has type
  \<open>'m\<close>; \<open>fit\<close> returns the fitted model; \<open>save\<close> returns the path of the file it wrote
  inside the directory it was given; \<open>load\<close> gets the path and the saved model found there.
\<close>

record ('v, 'm, 'f, 'a) strategy =
  get_filename :: "'v dict \<Rightarrow> string"
  load :: "string \<Rightarrow> 'm \<Rightarrow> exn + 'm"
  init :: "'v dict \<Rightarrow> exn + 'm"
  fit :: "'m \<Rightarrow> 'f \<Rightarrow> 'v dict \<Rightarrow> exn + 'm"
  save :: "'m \<Rightarrow> string \<Rightarrow> exn + string"
  seed_length :: "'m \<Rightarrow> int"
  predict :: "'m \<Rightarrow> 'a list list \<Rightarrow> int \<Rightarrow> 'v dict \<Rightarrow> exn + 'v dict"

record 'v test =
  metric :: string
  eval :: "'v prediction \<Rightarrow> exn + 'v"
  compare :: "'v \<Rightarrow> 'v \<Rightarrow> exn + bool"

text \<open>
  What lies outside the module: the operations on values, and
  \<open>getattr(prediction, plot_key, None)\<close>, which is \<open>None\<close> here when the attribute is
  missing, \<open>None\<close> or not callable, and otherwise the plotting method, applied to the
  keyword arguments of the plot.
\<close>

record 'v world =
  value_ops :: "'v pyops"
  plot_attr :: "'v prediction \<Rightarrow> string \<Rightarrow> ('v dict \<Rightarrow> exn option) option"

text \<open>The \<open>plots\<close> argument: its default is the list \<open>[]\<close>, callers pass a dictionary.\<close>

datatype 'v plots_arg = Plots_list "string list" | Plots_dict "(string \<times> 'v dict) list"

record ('v, 'a) args =
  tests :: "'v test list"
  hypergrid_keys :: "string list"
  expanded_hypergrid :: "'v list list"
  prediction_index :: int
  predictive_horizon :: int
  plots :: "'v plots_arg"
  fit_kwargs :: "'v dict"
  eval_kwargs :: "'v dict"
  mode :: string
  pred_kwargs :: "'v dict"
  eval_ts :: "'a list option"
  model_input_arg :: "'a list list option"

subsection \<open>Files, the log and the local variables\<close>

text \<open>
  A pickled file either unpickles to the object that was dumped or fails to load.  The
  three kinds of artifact live in three directories of the experiment's folder and are kept
  in three maps from the full file name; writing a file is taken to succeed.
\<close>

datatype 'x blob = Pickled 'x | Corrupt

record ('v, 'm) disk =
  spec_files :: "string \<rightharpoonup> 'v dict blob"
  pred_files :: "string \<rightharpoonup> 'v prediction blob"
  model_files :: "string \<rightharpoonup> 'm"
  plot_files :: "string set"

text \<open>What the run prints, and which calls it makes on the strategy, in order.\<close>

datatype ('v, 'a) event =
    Print_path string
  | Print_load_error
  | Print_training "'v dict"
  | Print_new_best string 'v
  | Print_plot_unavailable string
  | Print_best_header
  | Print_best string "'v option" "'v dict option"
  | Call_load string
  | Call_init "'v dict"
  | Call_fit "'v dict"
  | Call_save string
  | Call_predict "'a list list" int "'v dict"
  | Call_plot string "'v dict"

text \<open>
  The local variables of \<open>choose_model\<close> that outlive a grid point.  A spec dictionary is
  an object: \<open>best_strategy[metric] = spec\<close> stores a reference, and the tests that follow
  in the same grid point still write into that object.  The object made at a grid point is
  identified by its position in \<open>specs\<close>, which holds the contents each object ends with;
  \<open>best_strategy\<close> holds positions.
\<close>

record ('v, 'm, 'a) state =
  disk :: "('v, 'm) disk"
  trace :: "('v, 'a) event list"
  model_input :: "'a list list option"
  best_results :: "(string \<times> 'v option) list"
  best_strategy :: "(string \<times> nat option) list"
  specs :: "'v dict list"

definition emit :: "('v, 'a) event \<Rightarrow> ('v, 'm, 'a) state \<Rightarrow> ('v, 'm, 'a) state" where
  "emit ev st = st\<lparr>trace := trace st @ [ev]\<rparr>"

subsection \<open>File names\<close>

function str_nat :: "nat \<Rightarrow> string" where
  "str_nat n =
     (if n < 10 then [''0123456789'' ! n]
      else str_nat (n div 10) @ [''0123456789'' ! (n mod 10)])"
  by pat_completeness auto
termination
  by (relation "measure (\<lambda>n. n)") auto

declare str_nat.simps [simp del]

definition str_int :: "int \<Rightarrow> string" where
  "str_int i = (if i < 0 then ''-'' @ str_nat (nat (- i)) else str_nat (nat i))"

definition model_fname :: "string \<Rightarrow> string \<Rightarrow> string" where
  "model_fname fld fname = fld @ ''models/'' @ fname"

definition spec_fname :: "string \<Rightarrow> string \<Rightarrow> string \<Rightarrow> string" where
  "spec_fname fld fname md = fld @ ''logs/'' @ fname @ ''_'' @ md @ ''_report''"

definition prediction_fname :: "string \<Rightarrow> string \<Rightarrow> string \<Rightarrow> int \<Rightarrow> int \<Rightarrow> string" where
  "prediction_fname fld fname md idx horizon =
     fld @ ''predictions/'' @ fname @ ''_'' @ md @ ''_pred_index_'' @ str_int idx
       @ ''_pred_horizon_'' @ str_int horizon"

definition plot_fname :: "string \<Rightarrow> string \<Rightarrow> string \<Rightarrow> string \<Rightarrow> string" where
  "plot_fname fld plot_key md fname =
     fld @ ''plots/'' @ plot_key @ ''_'' @ md @ ''_'' @ fname @ ''.pdf''"

subsection \<open>One grid point\<close>

text \<open>\<open>{k: v for k, v in zip(hypergrid_keys, next_config)}\<close>\<close>

definition make_spec :: "string list \<Rightarrow> 'v list \<Rightarrow> 'v dict" where
  "make_spec keys config = fold (\<lambda>(k, v) d. AList.update k v d) (zip keys config) []"

text \<open>
  The \<open>try\<close> block.  It yields the spec (the loaded one if the report was read), the
  prediction if it was read, and whether the \<open>except\<close> clause ran.  A report that fails to
  load ends the block before the prediction file is looked at.
\<close>

definition load_cached ::
  "('v, 'm) disk \<Rightarrow> 'v dict \<Rightarrow> string \<Rightarrow> string \<Rightarrow> 'v dict \<times> 'v prediction option \<times> bool" where
  "load_cached d spec sf pf =
     (case spec_files d sf of
        Some Corrupt \<Rightarrow> (spec, None, True)
      | other \<Rightarrow>
          (let spec' = (case other of Some (Pickled sp) \<Rightarrow> sp | _ \<Rightarrow> spec)
           in case pred_files d pf of
                None \<Rightarrow> (spec', None, False)
              | Some Corrupt \<Rightarrow> (spec', None, True)
              | Some (Pickled p) \<Rightarrow> (spec', Some p, False)))"

text \<open>Lines 149 to 155: the saved model if its file exists, else a new fitted one, saved.\<close>

definition obtain_model ::
  "('v, 'm, 'f, 'a) strategy \<Rightarrow> ('v, 'f, 'a) dataset \<Rightarrow> string \<Rightarrow> ('v, 'a) args \<Rightarrow>
   'v dict \<Rightarrow> string \<Rightarrow> ('v, 'm, 'a) state \<Rightarrow> (exn + 'm) \<times> ('v, 'm, 'a) state" where
  "obtain_model strat ds fld a spec mf st =
     (case model_files (disk st) mf of
        Some saved \<Rightarrow> (load strat mf saved, emit (Call_load mf) st)
      | None \<Rightarrow>
          (let st1 = emit (Call_init spec) (emit (Print_training spec) st)
           in case init strat spec of
                Inl e \<Rightarrow> (Inl e, st1)
              | Inr m0 \<Rightarrow>
                  (let st2 = emit (Call_fit (fit_kwargs a)) st1
                   in case fit strat m0 (train_frames ds) (fit_kwargs a) of
                        Inl e \<Rightarrow> (Inl e, st2)
                      | Inr m \<Rightarrow>
                          (let st3 = emit (Call_save (fld @ ''models/'')) st2
                           in case save strat m (fld @ ''models/'') of
                                Inl e \<Rightarrow> (Inl e, st3)
                              | Inr written \<Rightarrow>
                                  (Inr m,
                                   st3\<lparr>disk := (disk st3)
                                     \<lparr>model_files := (model_files (disk st3))(written \<mapsto> m)\<rparr>\<rparr>)))))"

text \<open>
  \<open>xs[a:b]\<close> on a sequence: a negative bound counts from the end, and both bounds are
  clipped to the sequence.
\<close>

definition slice_bound :: "nat \<Rightarrow> int \<Rightarrow> nat" where
  "slice_bound n i = (if i < 0 then nat (max 0 (int n + i)) else min n (nat i))"

definition py_slice :: "'a list \<Rightarrow> int \<Rightarrow> int \<Rightarrow> 'a list" where
  "py_slice xs a b =
     (let lo = slice_bound (length xs) a; hi = slice_bound (length xs) b
      in take (hi - lo) (drop lo xs))"

text \<open>
  Lines 148 to 173, the body of \<open>if not pred_loaded_successfully\<close>.  The model input is
  assigned before the assertion is tested; \<open>eval_ts[np.newaxis, a:b]\<close> is the slice with a
  leading axis of length one.
\<close>

definition compute_prediction ::
  "'v world \<Rightarrow> ('v, 'm, 'f, 'a) strategy \<Rightarrow> ('v, 'f, 'a) dataset \<Rightarrow> string \<Rightarrow>
   ('v, 'a) args \<Rightarrow> 'a list \<Rightarrow> 'v dict \<Rightarrow> string \<Rightarrow> string \<Rightarrow> ('v, 'm, 'a) state \<Rightarrow>
   (exn + 'v prediction) \<times> ('v, 'm, 'a) state" where
  "compute_prediction w strat ds fld a series spec mf pf st =
     (case obtain_model strat ds fld a spec mf st of
        (Inl e, st1) \<Rightarrow> (Inl e, st1)
      | (Inr model, st1) \<Rightarrow>
          (let seed_start = prediction_index a - seed_length strat model;
               inp = (case model_input st1 of
                        None \<Rightarrow> [py_slice series seed_start (prediction_index a)]
                      | Some given \<Rightarrow> given);
               st2 = st1\<lparr>model_input := Some inp\<rparr>
           in if \<not> 0 \<le> seed_start then (Inl AssertionError, st2)
              else
                (let st3 = emit (Call_predict inp (predictive_horizon a) (eval_kwargs a)) st2
                 in case predict strat model inp (predictive_horizon a) (eval_kwargs a) of
                      Inl e \<Rightarrow> (Inl e, st3)
                    | Inr raw \<Rightarrow>
                        (case build_prediction (value_ops w) ds raw (pred_kwargs a) of
                           (Inl e, _) \<Rightarrow> (Inl e, st3)
                         | (Inr p, _) \<Rightarrow>
                             (Inr p,
                              st3\<lparr>disk := (disk st3)
                                \<lparr>pred_files := (pred_files (disk st3))(pf \<mapsto> Pickled p)\<rparr>\<rparr>)))))"

text \<open>
  Line 180, \<open>best_results[metric] is None or test.compare(spec[metric], best_results[metric])\<close>.
  The entry is there because every test's metric was entered before the loop.  It is \<open>None\<close>
  as long as no score was stored, and also when the score that was stored is itself Python's
  \<open>None\<close>: in both cases \<open>or\<close> answers without calling \<open>compare\<close>.
\<close>

definition improves :: "'v pyops \<Rightarrow> 'v test \<Rightarrow> 'v \<Rightarrow> 'v option option \<Rightarrow> exn + bool" where
  "improves ops t score entry =
     (case entry of
        None \<Rightarrow> Inl (KeyError (metric t))
      | Some None \<Rightarrow> Inr True
      | Some (Some best) \<Rightarrow> if is_none ops best then Inr True else compare t score best)"

text \<open>Lines 175 to 184.  \<open>addr\<close> is the position of this grid point's spec object.\<close>

fun tests_loop ::
  "'v world \<Rightarrow> 'v test list \<Rightarrow> 'v prediction \<Rightarrow> nat \<Rightarrow> 'v dict \<Rightarrow> ('v, 'm, 'a) state \<Rightarrow>
   exn option \<times> 'v dict \<times> ('v, 'm, 'a) state" where
  "tests_loop w [] prediction addr spec st = (None, spec, st)"
| "tests_loop w (t # rest) prediction addr spec st =
     (case eval t prediction of
        Inl e \<Rightarrow> (Some e, spec, st)
      | Inr score \<Rightarrow>
          (let spec' = AList.update (metric t) score spec
           in case improves (value_ops w) t score (map_of (best_results st) (metric t)) of
                Inl e \<Rightarrow> (Some e, spec', st)
              | Inr True \<Rightarrow>
                  tests_loop w rest prediction addr spec'
                    ((emit (Print_new_best (metric t) score) st)
                       \<lparr>best_results := AList.update (metric t) (Some score) (best_results st),
                        best_strategy := AList.update (metric t) (Some addr) (best_strategy st)\<rparr>)
              | Inr False \<Rightarrow> tests_loop w rest prediction addr spec' st))"

text \<open>Lines 189 to 199, for a dictionary of plots.\<close>

fun plots_loop ::
  "'v world \<Rightarrow> (string \<times> 'v dict) list \<Rightarrow> 'v prediction \<Rightarrow> string \<Rightarrow> string \<Rightarrow> string \<Rightarrow>
   ('v, 'm, 'a) state \<Rightarrow> exn option \<times> ('v, 'm, 'a) state" where
  "plots_loop w [] prediction fld md fname st = (None, st)"
| "plots_loop w ((plot_key, plot_args) # rest) prediction fld md fname st =
     (case plot_attr w prediction plot_key of
        None \<Rightarrow> plots_loop w rest prediction fld md fname (emit (Print_plot_unavailable plot_key) st)
      | Some plot_eval \<Rightarrow>
          (let st1 = emit (Call_plot plot_key plot_args) st
           in case plot_eval plot_args of
                Some e \<Rightarrow> (Some e, st1)
              | None \<Rightarrow>
                  plots_loop w rest prediction fld md fname
                    (st1\<lparr>disk := (disk st1)
                       \<lparr>plot_files := insert (plot_fname fld plot_key md fname)
                                        (plot_files (disk st1))\<rparr>\<rparr>)))"

text \<open>\<open>for plot_key, plot_args in plots.items()\<close>: a list has no \<open>items\<close>.\<close>

definition run_plots ::
  "'v world \<Rightarrow> 'v plots_arg \<Rightarrow> 'v prediction \<Rightarrow> string \<Rightarrow> string \<Rightarrow> string \<Rightarrow>
   ('v, 'm, 'a) state \<Rightarrow> exn option \<times> ('v, 'm, 'a) state" where
  "run_plots w pl prediction fld md fname st =
     (case pl of
        Plots_list _ \<Rightarrow> (Some (AttributeError ''items''), st)
      | Plots_dict items \<Rightarrow> plots_loop w items prediction fld md fname st)"

text \<open>Lines 126 to 131: the spec of the grid point and the names of its files.\<close>

definition file_names ::
  "('v, 'm, 'f, 'a) strategy \<Rightarrow> string \<Rightarrow> ('v, 'a) args \<Rightarrow> 'v list \<Rightarrow>
   'v dict \<times> string \<times> string \<times> string \<times> string" where
  "file_names strat fld a next_config =
     (let spec = make_spec (hypergrid_keys a) next_config;
          fname = get_filename strat spec
      in (spec, fname, model_fname fld fname, spec_fname fld fname (mode a),
          prediction_fname fld fname (mode a) (prediction_index a) (predictive_horizon a)))"

text \<open>
  Lines 175 to 199: the tests, the report written once they are through, the plots.  The
  spec object of the grid point gets its position in \<open>specs\<close> here.
\<close>

definition evaluate_point ::
  "'v world \<Rightarrow> ('v, 'a) args \<Rightarrow> string \<Rightarrow> string \<Rightarrow> string \<Rightarrow> 'v dict \<Rightarrow> 'v prediction \<Rightarrow>
   ('v, 'm, 'a) state \<Rightarrow> exn option \<times> ('v, 'm, 'a) state" where
  "evaluate_point w a fld fname sf spec prediction st =
     (case tests_loop w (tests a) prediction (length (specs st)) spec st of
        (Some e, _, st1) \<Rightarrow> (Some e, st1)
      | (None, spec', st1) \<Rightarrow>
          run_plots w (plots a) prediction fld (mode a) fname
            (st1\<lparr>specs := specs st1 @ [spec'],
                 disk := (disk st1)
                   \<lparr>spec_files := (spec_files (disk st1))(sf \<mapsto> Pickled spec')\<rparr>\<rparr>))"

text \<open>The body of \<open>for next_config in expanded_hypergrid\<close>, lines 126 to 199.\<close>

definition grid_point ::
  "'v world \<Rightarrow> ('v, 'm, 'f, 'a) strategy \<Rightarrow> ('v, 'f, 'a) dataset \<Rightarrow> string \<Rightarrow>
   ('v, 'a) args \<Rightarrow> 'a list \<Rightarrow> 'v list \<Rightarrow> ('v, 'm, 'a) state \<Rightarrow>
   exn option \<times> ('v, 'm, 'a) state" where
  "grid_point w strat ds fld a series next_config st =
     (case file_names strat fld a next_config of
        (spec0, fname, mf, sf, pf) \<Rightarrow>
          (let st1 = emit (Print_path mf) st
           in case load_cached (disk st1) spec0 sf pf of
                (spec, cached, failed) \<Rightarrow>
                  (let st2 = (if failed then emit Print_load_error st1 else st1)
                   in case (case cached of
                              Some p \<Rightarrow> (Inr p, st2)
                            | None \<Rightarrow> compute_prediction w strat ds fld a series spec mf pf st2) of
                        (Inl e, st3) \<Rightarrow> (Some e, st3)
                      | (Inr prediction, st3) \<Rightarrow>
                          evaluate_point w a fld fname sf spec prediction st3)))"

subsection \<open>The whole call\<close>

fun grid_loop ::
  "'v world \<Rightarrow> ('v, 'm, 'f, 'a) strategy \<Rightarrow> ('v, 'f, 'a) dataset \<Rightarrow> string \<Rightarrow>
   ('v, 'a) args \<Rightarrow> 'a list \<Rightarrow> 'v list list \<Rightarrow> ('v, 'm, 'a) state \<Rightarrow>
   exn option \<times> ('v, 'm, 'a) state" where
  "grid_loop w strat ds fld a series [] st = (None, st)"
| "grid_loop w strat ds fld a series (next_config # rest) st =
     (case grid_point w strat ds fld a series next_config st of
        (Some e, st') \<Rightarrow> (Some e, st')
      | (None, st') \<Rightarrow> grid_loop w strat ds fld a series rest st')"

text \<open>\<open>for test in tests: best_results[test.metric] = None\<close>, and the same for \<open>best_strategy\<close>.\<close>

definition no_best :: "'v test list \<Rightarrow> (string \<times> 'x option) list" where
  "no_best ts = fold (\<lambda>t d. AList.update (metric t) None d) ts []"

definition initial_state :: "('v, 'a) args \<Rightarrow> ('v, 'm) disk \<Rightarrow> ('v, 'm, 'a) state" where
  "initial_state a d =
     \<lparr>disk = d, trace = [], model_input = model_input_arg a,
      best_results = no_best (tests a), best_strategy = no_best (tests a), specs = []\<rparr>"

text \<open>The object a position of \<open>best_strategy\<close> refers to.\<close>

definition deref :: "'v dict list \<Rightarrow> nat option \<Rightarrow> 'v dict option" where
  "deref objs r = (case r of None \<Rightarrow> None | Some i \<Rightarrow> if i < length objs then Some (objs ! i) else None)"

text \<open>The closing prints, lines 201 to 203.\<close>

definition summary :: "('v, 'm, 'a) state \<Rightarrow> 'v test list \<Rightarrow> ('v, 'a) event list" where
  "summary st ts =
     Print_best_header #
     map (\<lambda>t. Print_best (metric t)
                (case map_of (best_results st) (metric t) of Some r \<Rightarrow> r | None \<Rightarrow> None)
                (case map_of (best_strategy st) (metric t) of
                   Some r \<Rightarrow> deref (specs st) r | None \<Rightarrow> None)) ts"

text \<open>
  \<open>choose_model\<close> of the experiment \<open>self\<close>, whose \<open>Strategy\<close> class is \<open>strat\<close>, on the
  files \<open>d\<close>: the returned \<open>best_strategy\<close> (metric name to spec, or
  to \<open>None\<close>) or the exception that ended the call, and the state the call ends in.
\<close>

text \<open>Lines 118 and 119: the series the seed window is cut from.\<close>

definition eval_series :: "('v, 'a) args \<Rightarrow> ('v, 'f, 'a) dataset \<Rightarrow> 'a list" where
  "eval_series a ds =
     (case eval_ts a of
        None \<Rightarrow> if mode a = ''val'' then val_ts ds else test_ts ds
      | Some ts \<Rightarrow> ts)"

definition choose_model ::
  "'v world \<Rightarrow> ('v, 'm, 'f, 'a) strategy \<Rightarrow> ('v, 'f, 'a) strategy_experiment \<Rightarrow>
   ('v, 'a) args \<Rightarrow> ('v, 'm) disk \<Rightarrow>
   (exn + (string \<times> 'v dict option) list) \<times> ('v, 'm, 'a) state" where
  "choose_model w strat self a d =
     (case grid_loop w strat (exp_dataset self) (folder self) a
             (eval_series a (exp_dataset self)) (expanded_hypergrid a) (initial_state a d) of
        (Some e, st) \<Rightarrow> (Inl e, st)
      | (None, st) \<Rightarrow>
          (Inr (map (\<lambda>(m, r). (m, deref (specs st) r)) (best_strategy st)),
           st\<lparr>trace := trace st @ summary st (tests a)\<rparr>))"

section \<open>The documented priority order\<close>

text \<open>
  The specification's words for \<open>build_prediction\<close>: the flags are inspected "in a fixed
  priority order: mixture-model ranges, autoregressive-quantile flag, list representation,
  array representation, centroid representation, SARIMAX flag, attractor flag, ordinal
  flag, default Gaussian", and the first flag that is set decides.  \<open>documented_choice\<close> is
  that rule on its own, to be compared with the cascade of the source.
\<close>

definition documented_order :: "branch list" where
  "documented_order = [Mixture, ArQuant, IsList, IsArray, Centroids, Sarimax, Attractor, Ordinal]"

definition documented_choice :: "(branch \<Rightarrow> bool) \<Rightarrow> branch" where
  "documented_choice flag = (case find flag documented_order of Some b \<Rightarrow> b | None \<Rightarrow> Gaussian)"

text \<open>Where the source reads the flag of each stage.\<close>

fun branch_flag ::
  "'v pyops \<Rightarrow> ('v, 'f, 'a) dataset \<Rightarrow> 'v dict \<Rightarrow> 'v dict \<Rightarrow> branch \<Rightarrow> exn + bool" where
  "branch_flag ops ds prediction pred_args Mixture = get_flag ops prediction ''mvar_x_ranges''"
| "branch_flag ops ds prediction pred_args ArQuant = get_flag ops pred_args ''ar_quant''"
| "branch_flag ops ds prediction pred_args IsList = get_flag ops (optional_params ds) ''is_list''"
| "branch_flag ops ds prediction pred_args IsArray = get_flag ops (optional_params ds) ''is_array''"
| "branch_flag ops ds prediction pred_args Centroids = get_flag ops (optional_params ds) ''centroids''"
| "branch_flag ops ds prediction pred_args Sarimax = get_flag ops (optional_params ds) ''is_sarimax''"
| "branch_flag ops ds prediction pred_args Attractor = get_flag ops (optional_params ds) ''is_attractor''"
| "branch_flag ops ds prediction pred_args Ordinal = get_flag ops (optional_params ds) ''is_ordinal''"
| "branch_flag ops ds prediction pred_args Gaussian = Inr True"

text \<open>
  The order as the source applies it, on the readings of the flags alone.  The first six
  tests each end in a \<open>return\<close>: \<open>first_set\<close> reads them in order and stops at the first that is
  set, or at the first that has no truth value.  When none of the six is set, the attractor
  flag is read, which selects a step but no wrapper, and then the ordinal flag, which
  decides between the ordinal wrapper and the Gaussian default.  \<open>selection\<close> is the list of
  the stages this rule enters.
\<close>

definition terminal_order :: "branch list" where
  "terminal_order = [Mixture, ArQuant, IsList, IsArray, Centroids, Sarimax]"

fun first_set :: "(branch \<Rightarrow> exn + bool) \<Rightarrow> branch list \<Rightarrow> exn + branch option" where
  "first_set rd [] = Inr None"
| "first_set rd (b # rest) =
     (case rd b of
        Inl e \<Rightarrow> Inl e
      | Inr True \<Rightarrow> Inr (Some b)
      | Inr False \<Rightarrow> first_set rd rest)"

definition selection :: "(branch \<Rightarrow> exn + bool) \<Rightarrow> exn + branch list" where
  "selection rd =
     (case first_set rd terminal_order of
        Inl e \<Rightarrow> Inl e
      | Inr (Some b) \<Rightarrow> Inr [b]
      | Inr None \<Rightarrow>
          (case rd Attractor of
             Inl e \<Rightarrow> Inl e
           | Inr attr \<Rightarrow>
               (case rd Ordinal of
                  Inl e \<Rightarrow> Inl e
                | Inr ordi \<Rightarrow>
                    Inr ((if attr then [Attractor] else []) @ [if ordi then Ordinal else Gaussian]))))"

text \<open>
  The variant of a wrapper is the class that built it, and each stage that returns builds
  one class.  The attractor stage builds none.
\<close>

definition variant :: "'v prediction \<Rightarrow> string" where
  "variant w =
     (case w of
        MultivarVBGMMPrediction d r \<Rightarrow> ''mixture''
      | MultivariateOrdinalPrediction q kw \<Rightarrow> ''multivariate ordinal''
      | PredictionList ps \<Rightarrow> ''list''
      | OrdinalPrediction pdf dr bins \<Rightarrow> ''ordinal''
      | OrdinalArrayPrediction kw \<Rightarrow> ''array''
      | GaussianPrediction_None d \<Rightarrow> ''gaussian''
      | OrdinalPrediction_kw kw \<Rightarrow> ''ordinal''
      | GaussianPrediction_kw kw \<Rightarrow> ''gaussian'')"

definition stage_variant :: "branch \<Rightarrow> string option" where
  "stage_variant b =
     (case b of
        Mixture \<Rightarrow> Some ''mixture''
      | ArQuant \<Rightarrow> Some ''multivariate ordinal''
      | IsList \<Rightarrow> Some ''list''
      | IsArray \<Rightarrow> Some ''array''
      | Centroids \<Rightarrow> Some ''multivariate ordinal''
      | Sarimax \<Rightarrow> Some ''gaussian''
      | Attractor \<Rightarrow> None
      | Ordinal \<Rightarrow> Some ''ordinal''
      | Gaussian \<Rightarrow> Some ''gaussian'')"

section \<open>Reading the log\<close>

text \<open>The input of a \<open>predict\<close> call, and the events that are calls on the strategy.\<close>

fun predict_input :: "('v, 'a) event \<Rightarrow> 'a list list option" where
  "predict_input (Call_predict inp horizon kw) = Some inp"
| "predict_input ev = None"

fun is_fit :: "('v, 'a) event \<Rightarrow> bool" where
  "is_fit (Call_fit kw) = True"
| "is_fit ev = False"

fun is_model_call :: "('v, 'a) event \<Rightarrow> bool" where
  "is_model_call (Call_load path) = True"
| "is_model_call (Call_init spec) = True"
| "is_model_call (Call_fit kw) = True"
| "is_model_call (Call_save dir) = True"
| "is_model_call (Call_predict inp horizon kw) = True"
| "is_model_call ev = False"

text \<open>
  "For every test: compute its metric on the prediction, store it into the spec": the
  scores the tests give a prediction, and the spec with these scores stored.
\<close>

definition scores :: "'v test list \<Rightarrow> 'v prediction \<Rightarrow> (string \<times> 'v) list" where
  "scores ts p =
     concat (map (\<lambda>t. case eval t p of Inr s \<Rightarrow> [(metric t, s)] | Inl e \<Rightarrow> []) ts)"

definition scored :: "'v test list \<Rightarrow> 'v prediction \<Rightarrow> 'v dict \<Rightarrow> 'v dict" where
  "scored ts p spec = fold (\<lambda>(k, v) d. AList.update k v d) (scores ts p) spec"

text \<open>
  Two states that are the same but for the report \<open>sf\<close>, the prediction \<open>pf\<close> and the
  diagnostic line of a failed load; and a state with the prediction file, and the report if
  it is the one that fails to load, taken off the disk: the cache miss a failing load is
  compared with.
\<close>

definition same_but ::
  "string \<Rightarrow> string \<Rightarrow> ('v, 'm, 'a) state \<Rightarrow> ('v, 'm, 'a) state \<Rightarrow> bool" where
  "same_but sf pf s t \<longleftrightarrow>
     model_files (disk s) = model_files (disk t) \<and>
     plot_files (disk s) = plot_files (disk t) \<and>
     (\<forall>f. f \<noteq> sf \<longrightarrow> spec_files (disk s) f = spec_files (disk t) f) \<and>
     (\<forall>f. f \<noteq> pf \<longrightarrow> pred_files (disk s) f = pred_files (disk t) f) \<and>
     model_input s = model_input t \<and>
     best_results s = best_results t \<and>
     best_strategy s = best_strategy t \<and>
     specs s = specs t \<and>
     filter (\<lambda>ev. ev \<noteq> Print_load_error) (trace s) =
       filter (\<lambda>ev. ev \<noteq> Print_load_error) (trace t)"

definition as_miss :: "string \<Rightarrow> string \<Rightarrow> ('v, 'm, 'a) state \<Rightarrow> ('v, 'm, 'a) state" where
  "as_miss sf pf st =
     st\<lparr>disk := (disk st)
       \<lparr>spec_files := (if spec_files (disk st) sf = Some Corrupt
                        then (spec_files (disk st))(sf := None) else spec_files (disk st)),
        pred_files := (pred_files (disk st))(pf := None)\<rparr>\<rparr>"

text \<open>
  The best-results table for one metric \<open>m\<close>, as the specification describes it: "mapping
  from metric name to the best score and its owning spec".  Before any grid point both
  entries are \<open>None\<close>; afterwards the stored score is the one found in the owning spec, and
  no grid point's spec holds a better one.
\<close>

definition best_of :: "('v \<Rightarrow> 'v \<Rightarrow> bool) \<Rightarrow> string \<Rightarrow> ('v, 'm, 'a) state \<Rightarrow> bool" where
  "best_of better m st \<longleftrightarrow>
     (if specs st = []
      then map_of (best_results st) m = Some None \<and> map_of (best_strategy st) m = Some None
      else \<exists>i best. i < length (specs st) \<and>
             map_of (best_results st) m = Some (Some best) \<and>
             map_of (best_strategy st) m = Some (Some i) \<and>
             map_of (specs st ! i) m = Some best \<and>
             (\<forall>j < length (specs st). \<exists>s. map_of (specs st ! j) m = Some s \<and> \<not> better s best))"

section \<open>Example values\<close>

text \<open>
  A small universe of values for the examples: \<open>None\<close>, booleans, strings, numbers and
  sequences.
  A sequence is read as a list by \<open>bool\<close>, \<open>len\<close> and indexing, and as a rectangular
  array by \<open>take(-1, axis=-1)\<close>, which keeps the last entry along the innermost axis.
\<close>

datatype pv = PNone | PBool bool | PStr string | PNum real | PSeq "pv list"

fun collect :: "(exn + 'x) list \<Rightarrow> exn + 'x list" where
  "collect [] = Inr []"
| "collect (Inl e # rest) = Inl e"
| "collect (Inr x # rest) = (case collect rest of Inl e \<Rightarrow> Inl e | Inr xs \<Rightarrow> Inr (x # xs))"

fun is_seq :: "pv \<Rightarrow> bool" where
  "is_seq (PSeq xs) = True"
| "is_seq v = False"

fun pv_take :: "pv \<Rightarrow> exn + pv" where
  "pv_take (PSeq xs) =
     (if xs = [] then Inl IndexError
      else if list_all is_seq xs
      then (case collect (map pv_take xs) of Inl e \<Rightarrow> Inl e | Inr ys \<Rightarrow> Inr (PSeq ys))
      else Inr (last xs))"
| "pv_take v = Inl (AttributeError ''take'')"

fun pv_truth :: "pv \<Rightarrow> exn + bool" where
  "pv_truth PNone = Inr False"
| "pv_truth (PBool b) = Inr b"
| "pv_truth (PStr s) = Inr (s \<noteq> [])"
| "pv_truth (PNum i) = Inr (i \<noteq> 0)"
| "pv_truth (PSeq xs) = Inr (xs \<noteq> [])"

fun pv_getitem :: "pv \<Rightarrow> nat \<Rightarrow> exn + pv" where
  "pv_getitem (PSeq xs) i = list_index xs i"
| "pv_getitem v i = Inl (Raised ''TypeError'')"

fun pv_len :: "pv \<Rightarrow> exn + nat" where
  "pv_len (PSeq xs) = Inr (length xs)"
| "pv_len v = Inl (Raised ''TypeError'')"

definition py_ops :: "pv pyops" where
  "py_ops = \<lparr>truth = pv_truth, getitem = pv_getitem, len = pv_len, take_last = pv_take,
             is_none = (\<lambda>v. v = PNone)\<rparr>"

text \<open>A dataset with the given flags, and a validation series \<open>100, 101, ..., 109\<close>.\<close>

definition example_dataset :: "pv dict \<Rightarrow> (pv, unit, int) dataset" where
  "example_dataset params =
     \<lparr>train_frames = (), val_ts = [100, 101, 102, 103, 104, 105, 106, 107, 108, 109],
      test_ts = [200, 201, 202], optional_params = params, optional_params_list = []\<rparr>"

text \<open>Raw predictions: two fields over three time steps, and one with mixture ranges.\<close>

definition raw_fields :: "pv dict" where
  "raw_fields =
     [(''ordinal_pdf'', PSeq [PNum 1, PNum 2, PNum 3]), (''draws'', PSeq [PNum 4, PNum 5, PNum 6])]"

definition raw_mixture :: "pv dict" where
  "raw_mixture = [(''draws'', PSeq [PNum 7]), (''mvar_x_ranges'', PSeq [PNum 0, PNum 1])]"

definition ordinal_flags :: "pv dict" where
  "ordinal_flags = [(''is_ordinal'', PBool True), (''bins'', PSeq [PNum 0, PNum 5])]"

definition attractor_flags :: "pv dict" where
  "attractor_flags = [(''is_attractor'', PBool True), (''bins'', PSeq [PNum 0, PNum 5])]"

definition attractor_ordinal_flags :: "pv dict" where
  "attractor_ordinal_flags =
     [(''is_attractor'', PBool True), (''is_ordinal'', PBool True), (''bins'', PSeq [PNum 0, PNum 5])]"

text \<open>
  A session in the relative directory \<open>sess/\<close>: a tree in which only the session's
  directory exists, and one in which the strategy's directory \<open>sess/arima\<close> exists without
  its four subdirectories.
\<close>

definition example_session :: session where
  "example_session = \<lparr>directory = ''sess/''\<rparr>"

definition tree_fresh :: tree where
  "tree_fresh = \<lparr>dirs = {(False, []), (False, [''sess''])}, files = {}\<rparr>"

definition tree_partial :: tree where
  "tree_partial =
     \<lparr>dirs = {(False, []), (False, [''sess'']), (False, [''sess'', ''arima''])}, files = {}\<rparr>"

definition tree_created :: tree where
  "tree_created =
     \<lparr>dirs = {(False, []), (False, [''sess'']), (False, [''sess'', ''arima'']),
              (False, [''sess'', ''arima'', ''models'']), (False, [''sess'', ''arima'', ''logs'']),
              (False, [''sess'', ''arima'', ''predictions'']),
              (False, [''sess'', ''arima'', ''plots''])},
      files = {}\<rparr>"

text \<open>
  An example strategy.  Its models are taken from a table by the hyperparameter \<open>name\<close>: a
  model is its name, its seed length and the value it predicts.  Fitting and loading
  return the model unchanged, \<open>save\<close> writes under the model's name, and the raw prediction
  has the one field \<open>mean\<close>.
\<close>

definition example_models :: "(string \<times> int \<times> real) list" where
  "example_models =
     [(''a'', 2, 0.4), (''b'', 2, 0.9), (''c'', 2, 0.6), (''long'', 5, 0.5)]"

definition example_strategy :: "(pv, string \<times> int \<times> real, unit, int) strategy" where
  "example_strategy =
     \<lparr>get_filename = (\<lambda>spec. case map_of spec ''name'' of Some (PStr n) \<Rightarrow> n | _ \<Rightarrow> ''model''),
      load = (\<lambda>path saved. Inr saved),
      init = (\<lambda>spec. case map_of spec ''name'' of
                        Some (PStr n) \<Rightarrow>
                          (case map_of example_models n of
                             Some m \<Rightarrow> Inr (n, m)
                           | None \<Rightarrow> Inl (Raised ''ValueError''))
                      | _ \<Rightarrow> Inl (Raised ''TypeError'')),
      fit = (\<lambda>m frames kw. Inr m),
      save = (\<lambda>m dir. Inr (dir @ fst m)),
      seed_length = (\<lambda>m. fst (snd m)),
      predict = (\<lambda>m inp horizon kw. Inr [(''mean'', PNum (snd (snd m)))])\<rparr>"

text \<open>
  A test whose score is the predicted \<open>mean\<close>, a number, higher being better; it raises on
  a prediction without such a field.
\<close>

fun higher :: "pv \<Rightarrow> pv \<Rightarrow> bool" where
  "higher (PNum x) (PNum y) = (y < x)"
| "higher new best = False"

definition accuracy_test :: "pv test" where
  "accuracy_test =
     \<lparr>metric = ''acc'',
      eval = (\<lambda>p. case p of
                    GaussianPrediction_kw kw \<Rightarrow>
                      (case map_of kw ''mean'' of
                         Some (PNum x) \<Rightarrow> Inr (PNum x)
                       | _ \<Rightarrow> Inl (Raised ''TypeError''))
                  | _ \<Rightarrow> Inl (Raised ''TypeError'')),
      compare = (\<lambda>new best. Inr (higher new best))\<rparr>"

definition example_world :: "pv world" where
  "example_world = \<lparr>value_ops = py_ops, plot_attr = (\<lambda>p key. None)\<rparr>"

definition example_args :: "pv list list \<Rightarrow> int \<Rightarrow> pv plots_arg \<Rightarrow> (pv, int) args" where
  "example_args grid idx pl =
     \<lparr>tests = [accuracy_test], hypergrid_keys = [''name''], expanded_hypergrid = grid,
      prediction_index = idx, predictive_horizon = 3, plots = pl, fit_kwargs = [],
      eval_kwargs = [], mode = ''val'', pred_kwargs = [], eval_ts = None,
      model_input_arg = None\<rparr>"

definition example_experiment :: "(pv, unit, int) strategy_experiment" where
  "example_experiment = StrategyExperiment (example_dataset []) ''e/'' ''arima''"

definition empty_disk :: "(pv, string \<times> int \<times> real) disk" where
  "empty_disk =
     \<lparr>spec_files = Map.empty, pred_files = Map.empty, model_files = Map.empty, plot_files = {}\<rparr>"


definition nullable_test :: "pv test" where
  "nullable_test =
     accuracy_test\<lparr>eval := (\<lambda>p. case eval accuracy_test p of
                                      Inr (PNum x) \<Rightarrow> Inr (if x < 0.5 then PNone else PNum x)
                                    | other \<Rightarrow> other)\<rparr>"

definition lowest_test :: "pv test" where
  "lowest_test = accuracy_test\<lparr>compare := (\<lambda>new best. Inr (higher best new))\<rparr>"

definition tests_args :: "pv test list \<Rightarrow> pv list list \<Rightarrow> int \<Rightarrow> (pv, int) args" where
  "tests_args ts grid idx = (example_args grid idx (Plots_dict []))\<lparr>tests := ts\<rparr>"

text \<open>
  One grid point run twice: on the empty disk, and again, with fresh local variables, on
  the files the first run left.
\<close>

definition first_run :: "exn option \<times> (pv, string \<times> int \<times> real, int) state" where
  "first_run =
     grid_point example_world example_strategy (example_dataset []) ''e/''
       (example_args [[PStr ''a'']] 7 (Plots_dict [])) (val_ts (example_dataset []))
       [PStr ''a''] (initial_state (example_args [[PStr ''a'']] 7 (Plots_dict [])) empty_disk)"

definition second_run :: "exn option \<times> (pv, string \<times> int \<times> real, int) state" where
  "second_run =
     grid_point example_world example_strategy (example_dataset []) ''e/''
       (example_args [[PStr ''a'']] 7 (Plots_dict [])) (val_ts (example_dataset []))
       [PStr ''a'']
       (initial_state (example_args [[PStr ''a'']] 7 (Plots_dict [])) (disk (snd first_run)))"

text \<open>The same grid point on a disk whose prediction file is there and fails to load.\<close>

definition corrupt_disk :: "(pv, string \<times> int \<times> real) disk" where
  "corrupt_disk =
     empty_disk\<lparr>pred_files := [''e/predictions/a_val_pred_index_7_pred_horizon_3'' \<mapsto> Corrupt]\<rparr>"

definition corrupt_run :: "exn option \<times> (pv, string \<times> int \<times> real, int) state" where
  "corrupt_run =
     grid_point example_world example_strategy (example_dataset []) ''e/''
       (example_args [[PStr ''a'']] 7 (Plots_dict [])) (val_ts (example_dataset []))
       [PStr ''a''] (initial_state (example_args [[PStr ''a'']] 7 (Plots_dict [])) corrupt_disk)"

section \<open>Properties of \<open>build_prediction\<close>\<close>

lemma ordinal_or_gaussian_selected:
  "ordinal_or_gaussian ops ds p0 fired0 = (r, p, fired) \<Longrightarrow>
   (case get_flag ops (optional_params ds) ''is_ordinal'' of
      Inl e \<Rightarrow> r = Inl e \<and> fired = fired0
    | Inr od \<Rightarrow> fired = fired0 @ [if od then Ordinal else Gaussian] \<and>
        (\<forall>w. r = Inr w \<longrightarrow> variant w = (if od then ''ordinal'' else ''gaussian'')))"
  by (auto simp: ordinal_or_gaussian_def ordinal_body_def variant_def
      split: sum.splits bool.splits prod.splits)

lemma mixture_body_variant: "mixture_body p = Inr w \<Longrightarrow> variant w = ''mixture''"
  by (auto simp: mixture_body_def variant_def split: sum.splits)

lemma mixture_body_result:
  "map_of p ''draws'' = Some d \<Longrightarrow> map_of p ''mvar_x_ranges'' = Some rg \<Longrightarrow>
   mixture_body p = Inr (MultivarVBGMMPrediction d rg)"
  by (simp add: mixture_body_def subscript_def)

lemma ar_quant_body_variant:
  "ar_quant_body ops p a = (Inr w, p') \<Longrightarrow> variant w = ''multivariate ordinal''"
  by (auto simp: ar_quant_body_def variant_def split: sum.splits)

lemma list_body_variant: "list_body ops ds p = Inr w \<Longrightarrow> variant w = ''list''"
  by (auto simp: list_body_def variant_def split: sum.splits)

lemma array_body_variant: "array_body ds p = (Inr w, p') \<Longrightarrow> variant w = ''array''"
  by (auto simp: array_body_def variant_def split: sum.splits)

lemma centroids_body_variant:
  "centroids_body p a = Inr w \<Longrightarrow> variant w = ''multivariate ordinal''"
  by (auto simp: centroids_body_def variant_def split: sum.splits)

text \<open>
  C1, as the code has it.  The selection is a function of the readings of the flags.  A
  call of \<open>build_prediction\<close> that returns a wrapper has entered exactly the stages of
  \<open>selection\<close>, and the wrapper is of the variant of the last of them: the first set flag
  among \<open>mvar_x_ranges\<close>, \<open>ar_quant\<close>, \<open>is_list\<close>, \<open>is_array\<close>, \<open>centroids\<close> and \<open>is_sarimax\<close>
  decides; when none of them is set the wrapper is the ordinal one if \<open>is_ordinal\<close> is set and
  the Gaussian one otherwise, with or without the attractor step before it.  Only the flags
  up to the deciding one are read.  When every flag that is read has a truth value the
  stages entered are those of \<open>selection\<close>, unless the attractor step raises; a flag without
  a truth value makes the call raise.  With \<open>mvar_x_ranges\<close> set the call is
  \<open>MultivarVBGMMPrediction(prediction['draws'], prediction['mvar_x_ranges'])\<close> on the
  untouched dictionary, whatever the flags of the dataset are.
\<close>

theorem build_prediction_priority:
  assumes run: "build_prediction ops ds prediction pred_args = (r, p, fired)"
  shows "(\<forall>w. r = Inr w \<longrightarrow>
            selection (branch_flag ops ds prediction pred_args) = Inr fired \<and>
            stage_variant (last fired) = Some (variant w)) \<and>
         (\<forall>bs. selection (branch_flag ops ds prediction pred_args) = Inr bs \<longrightarrow>
            fired = bs \<or> (fired = [Attractor] \<and> hd bs = Attractor \<and> (\<exists>e. r = Inl e))) \<and>
         (\<forall>e. selection (branch_flag ops ds prediction pred_args) = Inl e \<longrightarrow>
            (\<exists>e'. r = Inl e')) \<and>
         (\<forall>d rg. get_flag ops prediction ''mvar_x_ranges'' = Inr True \<and>
            map_of prediction ''draws'' = Some d \<and>
            map_of prediction ''mvar_x_ranges'' = Some rg \<longrightarrow>
            (r, p, fired) = (Inr (MultivarVBGMMPrediction d rg), prediction, [Mixture]))"
  (is "?P")
proof -
  note sel = selection_def terminal_order_def stage_variant_def
  show ?thesis
  proof (cases "get_flag ops prediction ''mvar_x_ranges''")
    case (Inl e)
    with run show ?thesis by (auto simp: build_prediction_def sel)
  next
    case f1: (Inr b1)
    show ?thesis
    proof (cases b1)
      case True
      with f1 run show ?thesis
        by (auto simp: build_prediction_def sel mixture_body_result dest: mixture_body_variant)
    next
      case n1: False
      show ?thesis
      proof (cases "get_flag ops pred_args ''ar_quant''")
        case (Inl e)
        with f1 n1 run show ?thesis by (auto simp: build_prediction_def sel)
      next
        case f2: (Inr b2)
        show ?thesis
        proof (cases b2)
          case True
          with f1 n1 f2 run show ?thesis
            by (auto simp: build_prediction_def sel split: prod.splits
                dest: ar_quant_body_variant)
        next
          case n2: False
          show ?thesis
          proof (cases "get_flag ops (optional_params ds) ''is_list''")
            case (Inl e)
            with f1 n1 f2 n2 run show ?thesis by (auto simp: build_prediction_def sel)
          next
            case f3: (Inr b3)
            show ?thesis
            proof (cases b3)
              case True
              with f1 n1 f2 n2 f3 run show ?thesis
                by (auto simp: build_prediction_def sel dest: list_body_variant)
            next
              case n3: False
              show ?thesis
              proof (cases "get_flag ops (optional_params ds) ''is_array''")
                case (Inl e)
                with f1 n1 f2 n2 f3 n3 run show ?thesis by (auto simp: build_prediction_def sel)
              next
                case f4: (Inr b4)
                show ?thesis
                proof (cases b4)
                  case True
                  with f1 n1 f2 n2 f3 n3 f4 run show ?thesis
                    by (auto simp: build_prediction_def sel split: prod.splits
                        dest: array_body_variant)
                next
                  case n4: False
                  show ?thesis
                  proof (cases "get_flag ops (optional_params ds) ''centroids''")
                    case (Inl e)
                    with f1 n1 f2 n2 f3 n3 f4 n4 run show ?thesis
                      by (auto simp: build_prediction_def sel)
                  next
                    case f5: (Inr b5)
                    show ?thesis
                    proof (cases b5)
                      case True
                      with f1 n1 f2 n2 f3 n3 f4 n4 f5 run show ?thesis
                        by (auto simp: build_prediction_def sel dest: centroids_body_variant)
                    next
                      case n5: False
                      show ?thesis
                      proof (cases "get_flag ops (optional_params ds) ''is_sarimax''")
                        case (Inl e)
                        with f1 n1 f2 n2 f3 n3 f4 n4 f5 n5 run show ?thesis
                          by (auto simp: build_prediction_def sel)
                      next
                        case f6: (Inr b6)
                        show ?thesis
                        proof (cases b6)
                          case True
                          with f1 n1 f2 n2 f3 n3 f4 n4 f5 n5 f6 run show ?thesis
                            by (auto simp: build_prediction_def sel variant_def)
                        next
                          case n6: False
                          show ?thesis
                          proof (cases "get_flag ops (optional_params ds) ''is_attractor''")
                            case (Inl e)
                            with f1 n1 f2 n2 f3 n3 f4 n4 f5 n5 f6 n6 run show ?thesis
                              by (auto simp: build_prediction_def sel)
                          next
                            case f7: (Inr b7)
                            show ?thesis
                            proof (cases b7)
                              case True
                              with f1 n1 f2 n2 f3 n3 f4 n4 f5 n5 f6 n6 f7 run show ?thesis
                                by (auto simp: build_prediction_def sel
                                    split: prod.splits option.splits sum.splits
                                    dest!: ordinal_or_gaussian_selected)
                            next
                              case False
                              with f1 n1 f2 n2 f3 n3 f4 n4 f5 n5 f6 n6 f7 run show ?thesis
                                by (auto simp: build_prediction_def sel split: sum.splits
                                    dest!: ordinal_or_gaussian_selected)
                            qed
                          qed
                        qed
                      qed
                    qed
                  qed
                qed
              qed
            qed
          qed
        qed
      qed
    qed
  qed
qed

lemma example_mixture_run:
  "build_prediction py_ops (example_dataset ordinal_flags) raw_mixture [] =
   (Inr (MultivarVBGMMPrediction (PSeq [PNum 7]) (PSeq [PNum 0, PNum 1])), raw_mixture, [Mixture])"
  by (simp add: build_prediction_def get_flag_def py_ops_def raw_mixture_def mixture_body_def
      subscript_def)

lemma example_attractor_run:
  "build_prediction py_ops (example_dataset attractor_ordinal_flags) raw_fields [] =
   (Inr (OrdinalPrediction_kw
           [(''ordinal_pdf'', PNum 3), (''draws'', PNum 6), (''bins'', PSeq [PNum 0, PNum 5])]),
    [(''ordinal_pdf'', PNum 3), (''draws'', PNum 6), (''bins'', PSeq [PNum 0, PNum 5])],
    [Attractor, Ordinal])"
  by (simp add: build_prediction_def get_flag_def py_ops_def example_dataset_def
      attractor_ordinal_flags_def raw_fields_def ordinal_or_gaussian_def ordinal_body_def
      set_bins_def subscript_def)

lemma example_attractor_only_run:
  "build_prediction py_ops (example_dataset attractor_flags) raw_fields [] =
   (Inr (GaussianPrediction_kw [(''ordinal_pdf'', PNum 3), (''draws'', PNum 6)]),
    [(''ordinal_pdf'', PNum 3), (''draws'', PNum 6)], [Attractor, Gaussian])"
  by (simp add: build_prediction_def get_flag_def py_ops_def example_dataset_def
      attractor_flags_def raw_fields_def ordinal_or_gaussian_def)

theorem build_prediction_priority_witness:
  "build_prediction py_ops (example_dataset ordinal_flags) raw_mixture [] =
     (Inr (MultivarVBGMMPrediction (PSeq [PNum 7]) (PSeq [PNum 0, PNum 1])), raw_mixture, [Mixture]) \<and>
   branch_flag py_ops (example_dataset ordinal_flags) raw_mixture [] Ordinal = Inr True \<and>
   selection (branch_flag py_ops (example_dataset ordinal_flags) raw_mixture []) = Inr [Mixture] \<and>
   variant (MultivarVBGMMPrediction (PSeq [PNum 7]) (PSeq [PNum 0, PNum 1])) = ''mixture'' \<and>
   selection (branch_flag py_ops (example_dataset attractor_ordinal_flags) raw_fields []) =
     Inr [Attractor, Ordinal] \<and>
   variant (OrdinalPrediction_kw
      [(''ordinal_pdf'', PNum 3), (''draws'', PNum 6), (''bins'', PSeq [PNum 0, PNum 5])]) = ''ordinal''"
proof -
  let ?w = "MultivarVBGMMPrediction (PSeq [PNum 7]) (PSeq [PNum 0, PNum 1])"
  let ?o = "OrdinalPrediction_kw
      [(''ordinal_pdf'', PNum 3), (''draws'', PNum 6), (''bins'', PSeq [PNum 0, PNum 5])]"
  from build_prediction_priority [OF example_mixture_run]
  have a: "selection (branch_flag py_ops (example_dataset ordinal_flags) raw_mixture []) =
             Inr [Mixture] \<and> stage_variant (last [Mixture]) = Some (variant ?w)"
    by blast
  from build_prediction_priority [OF example_attractor_run]
  have b: "selection (branch_flag py_ops (example_dataset attractor_ordinal_flags) raw_fields []) =
             Inr [Attractor, Ordinal] \<and>
           stage_variant (last [Attractor, Ordinal]) = Some (variant ?o)"
    by blast
  from a have c: "variant ?w = ''mixture''" by (simp add: stage_variant_def)
  from b have d: "variant ?o = ''ordinal''" by (simp add: stage_variant_def)
  have e: "branch_flag py_ops (example_dataset ordinal_flags) raw_mixture [] Ordinal = Inr True"
    by (simp add: get_flag_def py_ops_def example_dataset_def ordinal_flags_def)
  from a b c d e example_mixture_run show ?thesis by blast
qed

text \<open>
  The claim as stated fails at the attractor stage.  In both calls below \<open>is_attractor\<close> is
  the first flag of the documented order that is set, so by the claim that stage decides
  the outcome; but the first call returns the ordinal wrapper and the second the Gaussian
  one, the difference being \<open>is_ordinal\<close>, a flag of lower priority.
\<close>

theorem build_prediction_priority_counterexample:
  "documented_choice
     (\<lambda>b. branch_flag py_ops (example_dataset attractor_ordinal_flags) raw_fields [] b = Inr True) =
     Attractor \<and>
   documented_choice
     (\<lambda>b. branch_flag py_ops (example_dataset attractor_flags) raw_fields [] b = Inr True) =
     Attractor \<and>
   fst (build_prediction py_ops (example_dataset attractor_ordinal_flags) raw_fields []) =
     Inr (OrdinalPrediction_kw
            [(''ordinal_pdf'', PNum 3), (''draws'', PNum 6), (''bins'', PSeq [PNum 0, PNum 5])]) \<and>
   fst (build_prediction py_ops (example_dataset attractor_flags) raw_fields []) =
     Inr (GaussianPrediction_kw [(''ordinal_pdf'', PNum 3), (''draws'', PNum 6)])"
proof -
  have "documented_choice
     (\<lambda>b. branch_flag py_ops (example_dataset attractor_ordinal_flags) raw_fields [] b = Inr True) =
     Attractor"
    by (simp add: documented_choice_def documented_order_def get_flag_def py_ops_def
        example_dataset_def attractor_ordinal_flags_def raw_fields_def)
  moreover have "documented_choice
     (\<lambda>b. branch_flag py_ops (example_dataset attractor_flags) raw_fields [] b = Inr True) =
     Attractor"
    by (simp add: documented_choice_def documented_order_def get_flag_def py_ops_def
        example_dataset_def attractor_flags_def raw_fields_def)
  ultimately show ?thesis
    by (simp add: example_attractor_run example_attractor_only_run)
qed

lemma ordinal_or_gaussian_cases:
  "ordinal_or_gaussian ops ds p0 fired0 = (r, p, fired) \<Longrightarrow>
     (fired = fired0 \<and> (\<exists>e. r = Inl e) \<and> p = p0) \<or>
     (fired = fired0 @ [Ordinal] \<and> (r, p) = ordinal_body ds p0) \<or>
     (fired = fired0 @ [Gaussian] \<and> r = Inr (GaussianPrediction_kw p0) \<and> p = p0)"
  by (auto simp: ordinal_or_gaussian_def split: sum.splits bool.splits prod.splits)

lemma build_prediction_shapes:
  assumes "build_prediction ops ds prediction pred_args = (r, p, fired)"
  shows "fired \<in> set [[], [Mixture], [ArQuant], [IsList], [IsArray], [Centroids], [Sarimax],
                       [Attractor], [Attractor, Ordinal], [Attractor, Gaussian],
                       [Ordinal], [Gaussian]]"
    and "fired = [] \<or> fired = [Attractor] \<Longrightarrow> \<exists>e. r = Inl e"
  using assms
  by (auto simp: build_prediction_def split: sum.splits bool.splits prod.splits option.splits
      dest!: ordinal_or_gaussian_cases)

lemma build_prediction_no_flag:
  assumes "\<And>b. b \<noteq> Gaussian \<Longrightarrow> branch_flag ops ds prediction pred_args b = Inr False"
  shows "build_prediction ops ds prediction pred_args =
         (Inr (GaussianPrediction_kw prediction), prediction, [Gaussian])"
  using assms[of Mixture] assms[of ArQuant] assms[of IsList] assms[of IsArray]
    assms[of Centroids] assms[of Sarimax] assms[of Attractor] assms[of Ordinal]
  by (simp add: build_prediction_def ordinal_or_gaussian_def)

lemma build_prediction_attractor:
  assumes "\<And>b. b \<in> set [Mixture, ArQuant, IsList, IsArray, Centroids, Sarimax] \<Longrightarrow>
             branch_flag ops ds prediction pred_args b = Inr False"
    and "branch_flag ops ds prediction pred_args Attractor = Inr True"
    and "attractor_loop ops prediction prediction = (None, p1)"
  shows "build_prediction ops ds prediction pred_args = ordinal_or_gaussian ops ds p1 [Attractor]"
  using assms(1)[of Mixture] assms(1)[of ArQuant] assms(1)[of IsList] assms(1)[of IsArray]
    assms(1)[of Centroids] assms(1)[of Sarimax] assms(2,3)
  by (simp add: build_prediction_def)

text \<open>
  C2, as the code has it.  At most one wrapper-building branch of \<open>build_prediction\<close> is
  entered, and exactly one in a call that returns; with no flag set the call returns
  \<open>GaussianPrediction(**prediction)\<close> on the untouched dictionary.  The attractor test is
  not exclusive: it has no \<open>return\<close>.  When it is the first flag set and its loop ends, the
  call goes on with the ordinal test and the Gaussian default on the dictionary the loop
  left, so the branches entered are the attractor one and then one of these two.
\<close>

theorem build_prediction_branches:
  assumes run: "build_prediction ops ds prediction pred_args = (r, p, fired)"
  shows "length (filter (\<lambda>b. b \<noteq> Attractor) fired) \<le> 1 \<and>
         (\<forall>w. r = Inr w \<longrightarrow> length (filter (\<lambda>b. b \<noteq> Attractor) fired) = 1) \<and>
         (Attractor \<in> set fired \<longrightarrow> hd fired = Attractor) \<and>
         ((\<forall>b. b \<noteq> Gaussian \<longrightarrow> branch_flag ops ds prediction pred_args b = Inr False) \<longrightarrow>
            (r, p, fired) = (Inr (GaussianPrediction_kw prediction), prediction, [Gaussian])) \<and>
         (\<forall>p1. (\<forall>b \<in> set [Mixture, ArQuant, IsList, IsArray, Centroids, Sarimax].
                   branch_flag ops ds prediction pred_args b = Inr False) \<and>
               branch_flag ops ds prediction pred_args Attractor = Inr True \<and>
               attractor_loop ops prediction prediction = (None, p1) \<longrightarrow>
               (r, p, fired) = ordinal_or_gaussian ops ds p1 [Attractor])"
proof -
  have a: "length (filter (\<lambda>b. b \<noteq> Attractor) fired) \<le> 1"
    using build_prediction_shapes(1)[OF run] by auto
  have b: "\<forall>w. r = Inr w \<longrightarrow> length (filter (\<lambda>b. b \<noteq> Attractor) fired) = 1"
    using build_prediction_shapes[OF run] by auto
  have c: "Attractor \<in> set fired \<longrightarrow> hd fired = Attractor"
    using build_prediction_shapes(1)[OF run] by auto
  have d: "(\<forall>b. b \<noteq> Gaussian \<longrightarrow> branch_flag ops ds prediction pred_args b = Inr False) \<longrightarrow>
            (r, p, fired) = (Inr (GaussianPrediction_kw prediction), prediction, [Gaussian])"
    using build_prediction_no_flag[of ops ds prediction pred_args] run by simp
  have e: "\<forall>p1. (\<forall>b \<in> set [Mixture, ArQuant, IsList, IsArray, Centroids, Sarimax].
                   branch_flag ops ds prediction pred_args b = Inr False) \<and>
               branch_flag ops ds prediction pred_args Attractor = Inr True \<and>
               attractor_loop ops prediction prediction = (None, p1) \<longrightarrow>
               (r, p, fired) = ordinal_or_gaussian ops ds p1 [Attractor]"
    using build_prediction_attractor[of ops ds prediction pred_args] run by metis
  from a b c d e show ?thesis by blast
qed

lemma example_attractor_flags:
  "branch_flag py_ops (example_dataset attractor_ordinal_flags) raw_fields [] b =
   Inr (b = Attractor \<or> b = Ordinal \<or> b = Gaussian)"
  by (cases b)
    (simp_all add: get_flag_def py_ops_def example_dataset_def attractor_ordinal_flags_def
      raw_fields_def)

lemma example_attractor_loop:
  "attractor_loop py_ops raw_fields raw_fields =
   (None, [(''ordinal_pdf'', PNum 3), (''draws'', PNum 6)])"
  by (simp add: py_ops_def raw_fields_def)

theorem build_prediction_branches_witness:
  "build_prediction py_ops (example_dataset attractor_ordinal_flags) raw_fields [] =
     ordinal_or_gaussian py_ops (example_dataset attractor_ordinal_flags)
       [(''ordinal_pdf'', PNum 3), (''draws'', PNum 6)] [Attractor] \<and>
   length (filter (\<lambda>b. b \<noteq> Attractor) [Attractor, Ordinal]) = 1 \<and>
   hd [Attractor, Ordinal] = Attractor"
proof -
  note t = build_prediction_branches [OF example_attractor_run]
  have "\<forall>b \<in> set [Mixture, ArQuant, IsList, IsArray, Centroids, Sarimax].
          branch_flag py_ops (example_dataset attractor_ordinal_flags) raw_fields [] b = Inr False"
    using example_attractor_flags by auto
  moreover have "branch_flag py_ops (example_dataset attractor_ordinal_flags) raw_fields []
                   Attractor = Inr True"
    using example_attractor_flags[of Attractor] by simp
  ultimately have "build_prediction py_ops (example_dataset attractor_ordinal_flags) raw_fields [] =
     ordinal_or_gaussian py_ops (example_dataset attractor_ordinal_flags)
       [(''ordinal_pdf'', PNum 3), (''draws'', PNum 6)] [Attractor]"
    using t example_attractor_loop example_attractor_run by metis
  moreover from t have "length (filter (\<lambda>b. b \<noteq> Attractor) [Attractor, Ordinal]) = 1"
    by blast
  moreover from t have "hd [Attractor, Ordinal] = Attractor" by simp
  ultimately show ?thesis by blast
qed

text \<open>
  The claim as stated fails: with \<open>is_attractor\<close> and \<open>is_ordinal\<close> both set, the attractor
  branch replaces every field by its last time step and then the ordinal branch adds
  \<open>bins\<close> and builds the wrapper, so two branches are applied to the same input.
\<close>

theorem build_prediction_attractor_counterexample:
  "snd (snd (build_prediction py_ops (example_dataset attractor_ordinal_flags) raw_fields [])) =
     [Attractor, Ordinal] \<and>
   fst (build_prediction py_ops (example_dataset attractor_ordinal_flags) raw_fields []) =
     Inr (OrdinalPrediction_kw
            [(''ordinal_pdf'', PNum 3), (''draws'', PNum 6), (''bins'', PSeq [PNum 0, PNum 5])])"
  by (simp add: example_attractor_run)

subsection \<open>The caller's dictionary\<close>











section \<open>Properties of \<open>start_experiment\<close>\<close>

lemma self_in_ancestors: "p \<in> set (ancestors p)"
proof -
  have "(fst p, take (length (snd p)) (snd p)) \<in> set (ancestors p)"
    unfolding ancestors_def by (intro image_eqI[where x = "length (snd p)"] | simp)+
  then show ?thesis by simp
qed

lemma makedirs_creates:
  "makedirs t s = Inr t' \<Longrightarrow> isdir t' s \<and> dirs t \<subseteq> dirs t' \<and> files t' = files t"
  using self_in_ancestors[of "norm_path s"]
  by (auto simp: makedirs_def isdir_def Let_def split: if_splits)

lemma makedirs_seq_creates:
  "makedirs_seq t ss = (None, t') \<Longrightarrow>
   (\<forall>s \<in> set ss. isdir t' s) \<and> dirs t \<subseteq> dirs t' \<and> files t' = files t"
proof (induction ss arbitrary: t)
  case Nil
  then show ?case by simp
next
  case (Cons s ss)
  from Cons.prems obtain t1 where m: "makedirs t s = Inr t1" and r: "makedirs_seq t1 ss = (None, t')"
    by (auto split: sum.splits)
  from makedirs_creates[OF m] Cons.IH[OF r] show ?case
    by (auto simp: isdir_def)
qed

text \<open>
  C7, as the code has it.  A call of \<open>start_experiment\<close> that returns gives the
  \<open>StrategyExperiment\<close> bound to \<open><directory><id>/\<close>, and the strategy's directory exists
  afterwards.  If that directory did not exist before, it was created together with
  \<open>models\<close>, \<open>logs\<close>, \<open>predictions\<close> and \<open>plots\<close>; if it existed, nothing at all was
  created.  A second call with the same strategy id returns the same experiment and leaves
  the tree as it is.
\<close>

theorem start_experiment_idempotent:
  assumes run: "start_experiment self ds sid t = (Inr e, t')"
  shows "e = StrategyExperiment ds (directory self @ sid @ ''/'') sid \<and>
         isdir t' (directory self @ sid) \<and>
         (\<not> isdir t (directory self @ sid) \<longrightarrow>
            isdir t' (directory self @ sid @ ''/models/'') \<and>
            isdir t' (directory self @ sid @ ''/logs/'') \<and>
            isdir t' (directory self @ sid @ ''/predictions/'') \<and>
            isdir t' (directory self @ sid @ ''/plots/'')) \<and>
         (isdir t (directory self @ sid) \<longrightarrow> t' = t) \<and>
         start_experiment self ds sid t' = (Inr e, t')"
proof (cases "isdir t (directory self @ sid)")
  case True
  with run show ?thesis
    by (auto simp: start_experiment_def Let_def)
next
  case False
  with run have seq: "makedirs_seq t
      [directory self @ sid, (directory self @ sid) @ ''/models/'',
       (directory self @ sid) @ ''/logs/'', (directory self @ sid) @ ''/predictions/'',
       (directory self @ sid) @ ''/plots/''] = (None, t')"
    and e: "e = StrategyExperiment ds ((directory self @ sid) @ ''/'') sid"
    by (auto simp: start_experiment_def Let_def split: option.splits prod.splits)
  from makedirs_seq_creates[OF seq] have made:
    "isdir t' (directory self @ sid)"
    "isdir t' (directory self @ sid @ ''/models/'')"
    "isdir t' (directory self @ sid @ ''/logs/'')"
    "isdir t' (directory self @ sid @ ''/predictions/'')"
    "isdir t' (directory self @ sid @ ''/plots/'')"
    by simp_all
  from made(1) e have again: "start_experiment self ds sid t' = (Inr e, t')"
    by (simp add: start_experiment_def Let_def)
  from False made e again show ?thesis by simp
qed

lemma example_start_fresh:
  "start_experiment example_session (example_dataset []) ''arima'' tree_fresh =
   (Inr (StrategyExperiment (example_dataset []) ''sess/arima/'' ''arima''), tree_created)"
  by (simp add: start_experiment_def example_session_def tree_fresh_def tree_created_def
      isdir_def norm_path_def makedirs_def ancestors_def Let_def upt_rec insert_commute)

theorem start_experiment_idempotent_witness:
  "start_experiment example_session (example_dataset []) ''arima'' tree_fresh =
     (Inr (StrategyExperiment (example_dataset []) ''sess/arima/'' ''arima''), tree_created) \<and>
   start_experiment example_session (example_dataset []) ''arima'' tree_created =
     (Inr (StrategyExperiment (example_dataset []) ''sess/arima/'' ''arima''), tree_created) \<and>
   isdir tree_created ''sess/arima/models/'' \<and> isdir tree_created ''sess/arima/plots/''"
proof -
  note t = start_experiment_idempotent [OF example_start_fresh]
  have nd: "\<not> isdir tree_fresh (directory example_session @ ''arima'')"
    by (simp add: isdir_def tree_fresh_def example_session_def norm_path_def)
  from t have again:
    "start_experiment example_session (example_dataset []) ''arima'' tree_created =
     (Inr (StrategyExperiment (example_dataset []) ''sess/arima/'' ''arima''), tree_created)"
    by blast
  from t nd have "isdir tree_created (directory example_session @ ''arima'' @ ''/models/'')"
    and "isdir tree_created (directory example_session @ ''arima'' @ ''/plots/'')"
    by blast+
  then have "isdir tree_created ''sess/arima/models/''" and "isdir tree_created ''sess/arima/plots/''"
    by (simp_all add: example_session_def)
  with again example_start_fresh show ?thesis by blast
qed

text \<open>
  The claim as stated fails where the strategy's directory exists without its
  subdirectories: the call returns and creates none of them.
\<close>

theorem start_experiment_counterexample:
  "fst (start_experiment example_session (example_dataset []) ''arima'' tree_partial) =
     Inr (StrategyExperiment (example_dataset []) ''sess/arima/'' ''arima'') \<and>
   \<not> isdir (snd (start_experiment example_session (example_dataset []) ''arima'' tree_partial))
       ''sess/arima/models/''"
  by (simp add: start_experiment_def example_session_def tree_partial_def isdir_def
      norm_path_def Let_def)

section \<open>Properties of \<open>choose_model\<close>\<close>

subsection \<open>What each step leaves alone\<close>

lemma obtain_model_frame:
  assumes "obtain_model strat ds fld a spec mf st = (r, st1)"
  shows "model_input st1 = model_input st"
    and "best_results st1 = best_results st"
    and "best_strategy st1 = best_strategy st"
    and "specs st1 = specs st"
    and "spec_files (disk st1) = spec_files (disk st)"
    and "pred_files (disk st1) = pred_files (disk st)"
    and "plot_files (disk st1) = plot_files (disk st)"
    and "\<exists>E. trace st1 = trace st @ E \<and> (\<forall>ev \<in> set E. predict_input ev = None)"
  using assms
  by (auto simp: obtain_model_def emit_def Let_def split: option.splits sum.splits)

lemma compute_prediction_cases:
  assumes run: "compute_prediction w strat ds fld a series spec mf pf st = (r, st')"
  obtains
    (no_model) e where "obtain_model strat ds fld a spec mf st = (Inl e, st')" "r = Inl e"
  | (assertion) model st1 inp where
      "obtain_model strat ds fld a spec mf st = (Inr model, st1)"
      "inp = (case model_input st1 of
                None \<Rightarrow> [py_slice series (prediction_index a - seed_length strat model)
                           (prediction_index a)]
              | Some given \<Rightarrow> given)"
      "\<not> 0 \<le> prediction_index a - seed_length strat model"
      "r = Inl AssertionError" "st' = st1\<lparr>model_input := Some inp\<rparr>"
  | (no_prediction) model st1 inp e where
      "obtain_model strat ds fld a spec mf st = (Inr model, st1)"
      "inp = (case model_input st1 of
                None \<Rightarrow> [py_slice series (prediction_index a - seed_length strat model)
                           (prediction_index a)]
              | Some given \<Rightarrow> given)"
      "0 \<le> prediction_index a - seed_length strat model"
      "r = Inl e"
      "st' = emit (Call_predict inp (predictive_horizon a) (eval_kwargs a))
               (st1\<lparr>model_input := Some inp\<rparr>)"
      "predict strat model inp (predictive_horizon a) (eval_kwargs a) = Inl e \<or>
       (\<exists>raw. predict strat model inp (predictive_horizon a) (eval_kwargs a) = Inr raw \<and>
              fst (build_prediction (value_ops w) ds raw (pred_kwargs a)) = Inl e)"
  | (predicted) model st1 inp raw p where
      "obtain_model strat ds fld a spec mf st = (Inr model, st1)"
      "inp = (case model_input st1 of
                None \<Rightarrow> [py_slice series (prediction_index a - seed_length strat model)
                           (prediction_index a)]
              | Some given \<Rightarrow> given)"
      "0 \<le> prediction_index a - seed_length strat model"
      "predict strat model inp (predictive_horizon a) (eval_kwargs a) = Inr raw"
      "fst (build_prediction (value_ops w) ds raw (pred_kwargs a)) = Inr p"
      "r = Inr p"
      "st' = (emit (Call_predict inp (predictive_horizon a) (eval_kwargs a))
                (st1\<lparr>model_input := Some inp\<rparr>))
              \<lparr>disk := (disk st1)\<lparr>pred_files := (pred_files (disk st1))(pf \<mapsto> Pickled p)\<rparr>\<rparr>"
proof -
  obtain r1 st1 where om: "obtain_model strat ds fld a spec mf st = (r1, st1)"
    by (cases "obtain_model strat ds fld a spec mf st")
  show thesis
  proof (cases r1)
    case (Inl e)
    with run om have "r = Inl e" "st' = st1" by (simp_all add: compute_prediction_def)
    with om Inl no_model show thesis by simp
  next
    case (Inr model)
    define inp where "inp = (case model_input st1 of
                None \<Rightarrow> [py_slice series (prediction_index a - seed_length strat model)
                           (prediction_index a)]
              | Some given \<Rightarrow> given)"
    note om' = om[unfolded Inr]
    show thesis
    proof (cases "0 \<le> prediction_index a - seed_length strat model")
      case False
      with run om' have "r = Inl AssertionError" "st' = st1\<lparr>model_input := Some inp\<rparr>"
        by (simp_all add: compute_prediction_def Let_def inp_def)
      with om' False inp_def assertion show thesis by blast
    next
      case True
      let ?st3 = "emit (Call_predict inp (predictive_horizon a) (eval_kwargs a))
                    (st1\<lparr>model_input := Some inp\<rparr>)"
      show thesis
      proof (cases "predict strat model inp (predictive_horizon a) (eval_kwargs a)")
        case (Inl e)
        with run om' True have "r = Inl e" "st' = ?st3"
          by (simp_all add: compute_prediction_def Let_def inp_def)
        with om' True inp_def Inl no_prediction show thesis by blast
      next
        case raw: (Inr raw)
        obtain rb rest where bp: "build_prediction (value_ops w) ds raw (pred_kwargs a) = (rb, rest)"
          by (cases "build_prediction (value_ops w) ds raw (pred_kwargs a)")
        show thesis
        proof (cases rb)
          case (Inl e)
          with run om' True raw bp have "r = Inl e" "st' = ?st3"
            by (simp_all add: compute_prediction_def Let_def inp_def)
          moreover from bp Inl have
            "fst (build_prediction (value_ops w) ds raw (pred_kwargs a)) = Inl e" by simp
          ultimately show thesis using om' True inp_def raw no_prediction by blast
        next
          case (Inr p)
          with run om' True raw bp have "r = Inr p"
            "st' = ?st3\<lparr>disk := (disk ?st3)
                     \<lparr>pred_files := (pred_files (disk ?st3))(pf \<mapsto> Pickled p)\<rparr>\<rparr>"
            by (simp_all add: compute_prediction_def Let_def inp_def)
          moreover have "disk ?st3 = disk st1" by (simp add: emit_def)
          moreover from bp Inr have "fst (build_prediction (value_ops w) ds raw (pred_kwargs a)) = Inr p"
            by simp
          ultimately show thesis using om' True inp_def raw predicted by simp
        qed
      qed
    qed
  qed
qed

lemma compute_prediction_frame:
  assumes run: "compute_prediction w strat ds fld a series spec mf pf st = (r, st')"
  shows "best_results st' = best_results st"
    and "best_strategy st' = best_strategy st"
    and "specs st' = specs st"
    and "spec_files (disk st') = spec_files (disk st)"
    and "plot_files (disk st') = plot_files (disk st)"
    and "\<And>f. f \<noteq> pf \<Longrightarrow> pred_files (disk st') f = pred_files (disk st) f"
    and "\<And>p. r = Inr p \<Longrightarrow> pred_files (disk st') pf = Some (Pickled p)"
    and "\<And>e. r = Inl e \<Longrightarrow> pred_files (disk st') = pred_files (disk st)"
proof -
  have "best_results st' = best_results st \<and> best_strategy st' = best_strategy st \<and>
        specs st' = specs st \<and> spec_files (disk st') = spec_files (disk st) \<and>
        plot_files (disk st') = plot_files (disk st) \<and>
        (\<forall>f. f \<noteq> pf \<longrightarrow> pred_files (disk st') f = pred_files (disk st) f) \<and>
        (\<forall>p. r = Inr p \<longrightarrow> pred_files (disk st') pf = Some (Pickled p)) \<and>
        (\<forall>e. r = Inl e \<longrightarrow> pred_files (disk st') = pred_files (disk st))"
    using run
  proof (cases rule: compute_prediction_cases)
    case (no_model e)
    from obtain_model_frame[OF no_model(1)] no_model(2) show ?thesis by simp
  next
    case (assertion model st1 inp)
    from obtain_model_frame[OF assertion(1)] assertion(4,5) show ?thesis by simp
  next
    case (no_prediction model st1 inp e)
    from obtain_model_frame[OF no_prediction(1)] no_prediction(4,5) show ?thesis
      by (simp add: emit_def)
  next
    case (predicted model st1 inp raw p)
    from obtain_model_frame[OF predicted(1)] predicted(6,7) show ?thesis
      by (simp add: emit_def)
  qed
  then show "best_results st' = best_results st"
    and "best_strategy st' = best_strategy st"
    and "specs st' = specs st"
    and "spec_files (disk st') = spec_files (disk st)"
    and "plot_files (disk st') = plot_files (disk st)"
    and "\<And>f. f \<noteq> pf \<Longrightarrow> pred_files (disk st') f = pred_files (disk st) f"
    and "\<And>p. r = Inr p \<Longrightarrow> pred_files (disk st') pf = Some (Pickled p)"
    and "\<And>e. r = Inl e \<Longrightarrow> pred_files (disk st') = pred_files (disk st)"
    by blast+
qed


lemma tests_loop_frame:
  "tests_loop w ts prediction addr spec st = (r, spec', st') \<Longrightarrow>
   disk st' = disk st \<and> model_input st' = model_input st \<and> specs st' = specs st \<and>
   (\<exists>E. trace st' = trace st @ E \<and> (\<forall>ev \<in> set E. \<not> is_model_call ev))"
proof (induction ts arbitrary: spec st)
  case Nil
  then show ?case by simp
next
  case (Cons t ts)
  show ?case
  proof (cases "eval t prediction")
    case (Inl e)
    with Cons.prems show ?thesis by simp
  next
    case (Inr score)
    show ?thesis
    proof (cases "improves (value_ops w) t score (map_of (best_results st) (metric t))")
      case (Inl e)
      with Cons.prems Inr show ?thesis by simp
    next
      case b: (Inr b)
      show ?thesis
      proof (cases b)
        case True
        with Cons.prems Inr b Cons.IH[of "AList.update (metric t) score spec"
            "(emit (Print_new_best (metric t) score) st)
               \<lparr>best_results := AList.update (metric t) (Some score) (best_results st),
                best_strategy := AList.update (metric t) (Some addr) (best_strategy st)\<rparr>"]
        show ?thesis by (auto simp: emit_def Let_def)
      next
        case False
        with Cons.prems Inr b Cons.IH[of "AList.update (metric t) score spec" st]
        show ?thesis by (auto simp: Let_def)
      qed
    qed
  qed
qed

lemma plots_loop_frame:
  "plots_loop w items prediction fld md fname st = (r, st') \<Longrightarrow>
   spec_files (disk st') = spec_files (disk st) \<and> pred_files (disk st') = pred_files (disk st) \<and>
   model_files (disk st') = model_files (disk st) \<and>
   model_input st' = model_input st \<and> specs st' = specs st \<and>
   best_results st' = best_results st \<and> best_strategy st' = best_strategy st \<and>
   (\<exists>E. trace st' = trace st @ E \<and> (\<forall>ev \<in> set E. \<not> is_model_call ev))"
proof (induction items arbitrary: st)
  case Nil
  then show ?case by simp
next
  case (Cons it items)
  obtain k kw where it: "it = (k, kw)" by (cases it)
  show ?case
  proof (cases "plot_attr w prediction k")
    case None
    with Cons.prems it Cons.IH[of "emit (Print_plot_unavailable k) st"]
    show ?thesis by (auto simp: emit_def)
  next
    case (Some f)
    show ?thesis
    proof (cases "f kw")
      case None
      with Cons.prems it Some
        Cons.IH[of "(emit (Call_plot k kw) st)\<lparr>disk := (disk (emit (Call_plot k kw) st))
                       \<lparr>plot_files := insert (plot_fname fld k md fname)
                                        (plot_files (disk (emit (Call_plot k kw) st)))\<rparr>\<rparr>"]
      show ?thesis by (auto simp: emit_def Let_def)
    next
      case (Some e)
      with Cons.prems it \<open>plot_attr w prediction k = Some f\<close>
      show ?thesis by (auto simp: emit_def Let_def)
    qed
  qed
qed

lemma run_plots_frame:
  "run_plots w pl prediction fld md fname st = (r, st') \<Longrightarrow>
   spec_files (disk st') = spec_files (disk st) \<and> pred_files (disk st') = pred_files (disk st) \<and>
   model_files (disk st') = model_files (disk st) \<and>
   model_input st' = model_input st \<and> specs st' = specs st \<and>
   best_results st' = best_results st \<and> best_strategy st' = best_strategy st \<and>
   (\<exists>E. trace st' = trace st @ E \<and> (\<forall>ev \<in> set E. \<not> is_model_call ev))"
  using plots_loop_frame[of w _ prediction fld md fname st r st']
  by (cases pl) (auto simp: run_plots_def)

lemma evaluate_point_frame:
  assumes "evaluate_point w a fld fname sf spec prediction st = (r, st')"
  shows "pred_files (disk st') = pred_files (disk st)"
    and "model_files (disk st') = model_files (disk st)"
    and "model_input st' = model_input st"
    and "\<And>f. f \<noteq> sf \<Longrightarrow> spec_files (disk st') f = spec_files (disk st) f"
    and "\<exists>E. trace st' = trace st @ E \<and> (\<forall>ev \<in> set E. \<not> is_model_call ev)"
proof -
  obtain r1 spec' st1 where tl:
    "tests_loop w (tests a) prediction (length (specs st)) spec st = (r1, spec', st1)"
    by (cases "tests_loop w (tests a) prediction (length (specs st)) spec st") auto
  note tf = tests_loop_frame[OF tl]
  from tf obtain E1 where E1: "trace st1 = trace st @ E1" "\<forall>ev \<in> set E1. \<not> is_model_call ev"
    by blast
  let ?st2 = "st1\<lparr>specs := specs st1 @ [spec'],
                 disk := (disk st1)\<lparr>spec_files := (spec_files (disk st1))(sf \<mapsto> Pickled spec')\<rparr>\<rparr>"
  have all: "pred_files (disk st') = pred_files (disk st) \<and>
    model_files (disk st') = model_files (disk st) \<and> model_input st' = model_input st \<and>
    (\<forall>f. f \<noteq> sf \<longrightarrow> spec_files (disk st') f = spec_files (disk st) f) \<and>
    (\<exists>E. trace st' = trace st @ E \<and> (\<forall>ev \<in> set E. \<not> is_model_call ev))"
  proof (cases r1)
    case (Some e)
    with assms tl have "st' = st1" by (simp add: evaluate_point_def)
    with tf show ?thesis by auto
  next
    case None
    with assms tl have rp: "run_plots w (plots a) prediction fld (mode a) fname ?st2 = (r, st')"
      by (simp add: evaluate_point_def)
    from run_plots_frame[OF rp] obtain E2 where
      E2: "trace st' = trace ?st2 @ E2" "\<forall>ev \<in> set E2. \<not> is_model_call ev" by blast
    from E1 E2 have "trace st' = trace st @ (E1 @ E2) \<and> (\<forall>ev \<in> set (E1 @ E2). \<not> is_model_call ev)"
      by auto
    then have "\<exists>E. trace st' = trace st @ E \<and> (\<forall>ev \<in> set E. \<not> is_model_call ev)" by blast
    with run_plots_frame[OF rp] tf show ?thesis by auto
  qed
  from all show "pred_files (disk st') = pred_files (disk st)"
    and "model_files (disk st') = model_files (disk st)"
    and "model_input st' = model_input st"
    and "\<And>f. f \<noteq> sf \<Longrightarrow> spec_files (disk st') f = spec_files (disk st) f"
    and "\<exists>E. trace st' = trace st @ E \<and> (\<forall>ev \<in> set E. \<not> is_model_call ev)"
    by blast+
qed


lemma grid_loop_append:
  "grid_loop w strat ds fld a series (pre @ rest) st =
     (case grid_loop w strat ds fld a series pre st of
        (Some e, st') \<Rightarrow> (Some e, st')
      | (None, st') \<Rightarrow> grid_loop w strat ds fld a series rest st')"
  by (induction pre arbitrary: st) (auto split: prod.splits option.splits)

lemma grid_point_unfold:
  assumes "file_names strat fld a cfg = (spec0, fname, mf, sf, pf)"
    and "load_cached (disk st) spec0 sf pf = (spec, cached, failed)"
    and "st2 = (if failed then emit Print_load_error (emit (Print_path mf) st)
                else emit (Print_path mf) st)"
  shows "grid_point w strat ds fld a series cfg st =
     (case cached of
        Some p \<Rightarrow> evaluate_point w a fld fname sf spec p st2
      | None \<Rightarrow>
          (case compute_prediction w strat ds fld a series spec mf pf st2 of
             (Inl e, st3) \<Rightarrow> (Some e, st3)
           | (Inr p, st3) \<Rightarrow> evaluate_point w a fld fname sf spec p st3))"
proof -
  have d: "disk (emit (Print_path mf) st) = disk st" by (simp add: emit_def)
  show ?thesis
    using assms
    by (cases cached) (simp_all add: grid_point_def d Let_def split: prod.splits sum.splits)
qed

lemma emit_fields:
  "disk (emit ev st) = disk st" "model_input (emit ev st) = model_input st"
  "specs (emit ev st) = specs st" "best_results (emit ev st) = best_results st"
  "best_strategy (emit ev st) = best_strategy st" "trace (emit ev st) = trace st @ [ev]"
  by (simp_all add: emit_def)



subsection \<open>The model input\<close>





lemmas ex_defs = choose_model_def example_world_def example_strategy_def example_experiment_def
  example_args_def empty_disk_def StrategyExperiment_def example_dataset_def initial_state_def
  no_best_def accuracy_test_def grid_point_def file_names_def make_spec_def model_fname_def
  spec_fname_def prediction_fname_def load_cached_def emit_def compute_prediction_def
  obtain_model_def example_models_def py_slice_def slice_bound_def build_prediction_def
  get_flag_def py_ops_def ordinal_or_gaussian_def evaluate_point_def improves_def subscript_def
  run_plots_def deref_def summary_def str_int_def str_nat.simps eval_series_def Let_def



subsection \<open>The seed-window assertion\<close>

lemma choose_model_aborts:
  assumes grid: "expanded_hypergrid a = pre @ cfg # post"
    and before: "grid_loop w strat (exp_dataset self) (folder self) a
                   (eval_series a (exp_dataset self)) pre (initial_state a d) = (None, st)"
    and here: "grid_point w strat (exp_dataset self) (folder self) a
                 (eval_series a (exp_dataset self)) cfg st = (Some e, st')"
  shows "choose_model w strat self a d = (Inl e, st')"
  using assms by (simp add: choose_model_def grid_loop_append)

text \<open>
  C3, as the code has it.  Let the grid points before \<open>cfg\<close> complete, let \<open>cfg\<close> find no
  prediction to load, and let its model be obtained (loaded, or constructed, fitted and
  saved) with a seed length greater than the forecast start index.  Then the call ends with
  the \<open>AssertionError\<close> in the state the model was obtained in, apart from the model input
  being set: nothing is logged after the model's calls, \<open>predict\<close> is not called at this
  grid point, and no prediction file is written.
\<close>

theorem seed_assertion_aborts:
  assumes grid: "expanded_hypergrid a = pre @ cfg # post"
    and before: "grid_loop w strat (exp_dataset self) (folder self) a
                   (eval_series a (exp_dataset self)) pre (initial_state a d) = (None, st)"
    and names: "file_names strat (folder self) a cfg = (spec0, fname, mf, sf, pf)"
    and miss: "load_cached (disk st) spec0 sf pf = (spec, None, failed)"
    and model: "obtain_model strat (exp_dataset self) (folder self) a spec mf
                  (if failed then emit Print_load_error (emit (Print_path mf) st)
                   else emit (Print_path mf) st) = (Inr model, st1)"
    and short: "prediction_index a < seed_length strat model"
  shows "\<exists>st'. choose_model w strat self a d = (Inl AssertionError, st') \<and>
           trace st' = trace st1 \<and> disk st' = disk st1 \<and>
           pred_files (disk st') = pred_files (disk st) \<and>
           (\<exists>E. trace st' = trace st @ E \<and> (\<forall>ev \<in> set E. predict_input ev = None))"
proof -
  define st2 where "st2 = (if failed then emit Print_load_error (emit (Print_path mf) st)
                           else emit (Print_path mf) st)"
  define inp where "inp = (case model_input st1 of
      None \<Rightarrow> [py_slice (eval_series a (exp_dataset self))
                 (prediction_index a - seed_length strat model) (prediction_index a)]
    | Some given \<Rightarrow> given)"
  let ?st' = "st1\<lparr>model_input := Some inp\<rparr>"
  from model short have cp: "compute_prediction w strat (exp_dataset self) (folder self) a
      (eval_series a (exp_dataset self)) spec mf pf st2 = (Inl AssertionError, ?st')"
    by (simp add: compute_prediction_def st2_def inp_def Let_def)
  from grid_point_unfold[OF names miss st2_def, of w "exp_dataset self" "eval_series a (exp_dataset self)"] cp
  have gp: "grid_point w strat (exp_dataset self) (folder self) a
      (eval_series a (exp_dataset self)) cfg st = (Some AssertionError, ?st')"
    by simp
  note cm = choose_model_aborts[OF grid before gp]
  from obtain_model_frame(6,8)[OF model[folded st2_def]] obtain E where
    pf: "pred_files (disk st1) = pred_files (disk st2)"
    and E: "trace st1 = trace st2 @ E" "\<forall>ev \<in> set E. predict_input ev = None"
    by blast
  have st2: "disk st2 = disk st"
    "\<exists>E0. trace st2 = trace st @ E0 \<and> (\<forall>ev \<in> set E0. predict_input ev = None)"
    by (auto simp: st2_def emit_fields)
  from st2(2) obtain E0 where E0: "trace st2 = trace st @ E0" "\<forall>ev \<in> set E0. predict_input ev = None"
    by blast
  from E E0 have "trace ?st' = trace st @ (E0 @ E) \<and> (\<forall>ev \<in> set (E0 @ E). predict_input ev = None)"
    by auto
  then have tr: "\<exists>E. trace ?st' = trace st @ E \<and> (\<forall>ev \<in> set E. predict_input ev = None)"
    by blast
  from pf st2(1) have "pred_files (disk ?st') = pred_files (disk st)" by simp
  with cm tr show ?thesis by (intro exI[of _ ?st']) simp
qed

lemma example_short_names:
  "file_names example_strategy (folder example_experiment)
     (example_args [[PStr ''long'']] 3 (Plots_dict [])) [PStr ''long''] =
   ([(''name'', PStr ''long'')], ''long'', ''e/models/long'', ''e/logs/long_val_report'',
    ''e/predictions/long_val_pred_index_3_pred_horizon_3'')"
  by (simp add: ex_defs)

theorem seed_assertion_aborts_witness:
  "fst (choose_model example_world example_strategy example_experiment
          (example_args [[PStr ''long'']] 3 (Plots_dict [])) empty_disk) = Inl AssertionError \<and>
   prediction_index (example_args [[PStr ''long'']] 3 (Plots_dict []))
     < seed_length example_strategy (''long'', 5, 0.5)"
proof -
  let ?a = "example_args [[PStr ''long'']] 3 (Plots_dict [])"
  let ?st = "initial_state ?a empty_disk"
  let ?spec = "[(''name'', PStr ''long'')]"
  let ?om = "obtain_model example_strategy (exp_dataset example_experiment)
               (folder example_experiment) ?a ?spec ''e/models/long''
               (if False then emit Print_load_error (emit (Print_path ''e/models/long'') ?st)
                else emit (Print_path ''e/models/long'') ?st)"
  have grid: "expanded_hypergrid ?a = [] @ [PStr ''long''] # []"
    by (simp add: example_args_def)
  have before: "grid_loop example_world example_strategy (exp_dataset example_experiment)
      (folder example_experiment) ?a (eval_series ?a (exp_dataset example_experiment)) [] ?st
      = (None, ?st)"
    by simp
  have miss: "load_cached (disk ?st) ?spec ''e/logs/long_val_report''
      ''e/predictions/long_val_pred_index_3_pred_horizon_3'' = (?spec, None, False)"
    by (simp add: load_cached_def initial_state_def empty_disk_def)
  have "fst ?om = Inr (''long'', 5, 0.5)"
    by (simp add: ex_defs)
  then have model: "?om = (Inr (''long'', 5, 0.5), snd ?om)"
    by (metis prod.collapse)
  have short: "prediction_index ?a < seed_length example_strategy (''long'', 5, 0.5)"
    by (simp add: example_args_def example_strategy_def)
  from seed_assertion_aborts[OF grid before example_short_names miss model short] short
  show ?thesis by auto
qed

text \<open>
  The claim as stated fails twice.  With no model file, the model is constructed, fitted
  and saved before the assertion is tested.  And the assertion is not the only error that
  ends a call: with the default \<open>plots=[]\<close> the first grid point ends in the
  \<open>AttributeError\<close> of \<open>plots.items()\<close>.
\<close>

theorem seed_assertion_counterexample:
  "fst (choose_model example_world example_strategy example_experiment
          (example_args [[PStr ''long'']] 3 (Plots_dict [])) empty_disk) = Inl AssertionError \<and>
   filter is_model_call
     (trace (snd (choose_model example_world example_strategy example_experiment
                    (example_args [[PStr ''long'']] 3 (Plots_dict [])) empty_disk))) =
     [Call_init [(''name'', PStr ''long'')], Call_fit [], Call_save ''e/models/''] \<and>
   fst (choose_model example_world example_strategy example_experiment
          (example_args [[PStr ''a'']] 7 (Plots_list [])) empty_disk) =
     Inl (AttributeError ''items'')"
  by (simp add: ex_defs)

subsection \<open>Which exceptions leave the loop\<close>




















subsection \<open>A cached prediction\<close>

lemma scored_Cons:
  "eval t p = Inr s \<Longrightarrow> scored (t # ts) p spec = scored ts p (AList.update (metric t) s spec)"
  by (simp add: scored_def scores_def)

lemma tests_loop_spec:
  "tests_loop w ts p addr spec st = (None, spec', st') \<Longrightarrow> spec' = scored ts p spec"
proof (induction ts arbitrary: spec st)
  case Nil
  then show ?case by (simp add: scored_def scores_def)
next
  case (Cons t ts)
  from Cons.prems obtain score where sc: "eval t p = Inr score"
    by (cases "eval t p") simp_all
  from Cons.prems sc obtain b where b: "improves (value_ops w) t score (map_of (best_results st) (metric t)) = Inr b"
    by (cases "improves (value_ops w) t score (map_of (best_results st) (metric t))") (simp_all add: Let_def)
  from Cons.prems sc b obtain st1 where
    "tests_loop w ts p addr (AList.update (metric t) score spec) st1 = (None, spec', st')"
    by (cases b) (simp_all add: Let_def)
  from Cons.IH[OF this] scored_Cons[OF sc] show ?case by simp
qed

text \<open>Storing the same scores twice changes nothing, in a dictionary with distinct keys.\<close>

lemma updates_map_of:
  "map_of (fold (\<lambda>(k, v) d. AList.update k v d) us al) k =
     (case map_of (rev us) k of Some v \<Rightarrow> Some v | None \<Rightarrow> map_of al k)"
proof (induction us arbitrary: al)
  case Nil
  then show ?case by simp
next
  case (Cons u us)
  obtain k' v' where u: "u = (k', v')" by (cases u)
  show ?case
    by (simp add: u Cons.IH update_conv' map_add_def split: option.splits)
qed

lemma updates_keys:
  "fst ` set us \<subseteq> fst ` set al \<Longrightarrow>
   map fst (fold (\<lambda>(k, v) d. AList.update k v d) us al) = map fst al"
proof (induction us arbitrary: al)
  case Nil
  then show ?case by simp
next
  case (Cons u us)
  obtain k' v' where u: "u = (k', v')" by (cases u)
  from Cons.prems u have k: "k' \<in> fst ` set al" by auto
  then have keys: "map fst (AList.update k' v' al) = map fst al"
    by (simp add: update_keys)
  then have "fst ` set (AList.update k' v' al) = fst ` set al"
    by (metis set_map)
  with Cons.prems have "fst ` set us \<subseteq> fst ` set (AList.update k' v' al)" by simp
  from Cons.IH[OF this] keys u show ?case by simp
qed

lemma updates_keys_present:
  "fst ` set us \<subseteq> fst ` set (fold (\<lambda>(k, v) d. AList.update k v d) us al)"
proof -
  have "\<And>k. k \<in> fst ` set us \<Longrightarrow>
          map_of (fold (\<lambda>(k, v) d. AList.update k v d) us al) k \<noteq> None"
  proof -
    fix k assume "k \<in> fst ` set us"
    then have "k \<in> fst ` set (rev us)" by simp
    then have "map_of (rev us) k \<noteq> None" by (simp add: map_of_eq_None_iff)
    then show "map_of (fold (\<lambda>(k, v) d. AList.update k v d) us al) k \<noteq> None"
      by (auto simp: updates_map_of)
  qed
  then show ?thesis by (auto simp: map_of_eq_None_iff)
qed

lemma dict_eqI:
  "distinct (map fst xs) \<Longrightarrow> map fst xs = map fst ys \<Longrightarrow> map_of xs = map_of ys \<Longrightarrow> xs = ys"
proof (induction xs arbitrary: ys)
  case Nil
  then show ?case by simp
next
  case (Cons x xs)
  from Cons.prems(2) obtain y ys' where ys: "ys = y # ys'" by (cases ys) auto
  obtain k v where x: "x = (k, v)" by (cases x)
  from Cons.prems(2) ys x obtain v' where y: "y = (k, v')" by (cases y) auto
  from Cons.prems(3) ys x y have "v = v'" by (metis map_of_Cons_code(2) option.inject)
  from Cons.prems(1) x have notin: "k \<notin> fst ` set xs" by auto
  from Cons.prems(2) ys have keys: "map fst xs = map fst ys'" by simp
  then have notin': "k \<notin> fst ` set ys'" using notin by (metis set_map)
  have "map_of xs = map_of ys'"
  proof
    fix j
    show "map_of xs j = map_of ys' j"
    proof (cases "j = k")
      case True
      from notin notin' have "map_of xs k = None" "map_of ys' k = None"
        by (simp_all add: map_of_eq_None_iff)
      with True show ?thesis by simp
    next
      case False
      with Cons.prems(3) ys x y show ?thesis by (metis map_of_Cons_code(2))
    qed
  qed
  with Cons.IH[of ys'] Cons.prems(1) keys have "xs = ys'" by simp
  with ys x y \<open>v = v'\<close> show ?case by simp
qed

lemma distinct_updates:
  "distinct (map fst al) \<Longrightarrow> distinct (map fst (fold (\<lambda>(k, v) d. AList.update k v d) us al))"
  by (induction us arbitrary: al) (auto simp: distinct_update)

lemma scored_twice:
  assumes "distinct (map fst spec)"
  shows "scored ts p (scored ts p spec) = scored ts p spec"
proof -
  let ?F = "fold (\<lambda>(k, v) d. AList.update k v d) (scores ts p)"
  have d: "distinct (map fst (?F (?F spec)))"
    using assms by (simp add: distinct_updates)
  have k: "map fst (?F (?F spec)) = map fst (?F spec)"
    using updates_keys[OF updates_keys_present] .
  have m: "map_of (?F (?F spec)) = map_of (?F spec)"
    by (rule ext) (simp add: updates_map_of split: option.splits)
  from dict_eqI[OF d k m] show ?thesis by (simp add: scored_def)
qed

lemma distinct_make_spec: "distinct (map fst (make_spec keys config))"
proof -
  have "\<And>al. distinct (map fst al) \<Longrightarrow>
          distinct (map fst (fold (\<lambda>(k, v) d. AList.update k v d) (zip keys config) al))"
    by (rule distinct_updates)
  from this[of "[]"] show ?thesis by (simp add: make_spec_def)
qed

lemma load_cached_hit:
  "pred_files d pf = Some (Pickled p) \<Longrightarrow> spec_files d sf \<noteq> Some Corrupt \<Longrightarrow>
   load_cached d spec0 sf pf =
     (case spec_files d sf of Some (Pickled sp) \<Rightarrow> sp | _ \<Rightarrow> spec0, Some p, False)"
  by (simp add: load_cached_def split: option.splits blob.splits)

lemma load_cached_Some:
  "load_cached d spec0 sf pf = (spec, Some p, failed) \<Longrightarrow>
   pred_files d pf = Some (Pickled p) \<and> spec_files d sf \<noteq> Some Corrupt"
  by (auto simp: load_cached_def Let_def split: option.splits blob.splits)

lemma load_cached_spec:
  "load_cached d spec0 sf pf = (spec, cached, failed) \<Longrightarrow>
   spec = spec0 \<or> spec_files d sf = Some (Pickled spec)"
  by (auto simp: load_cached_def Let_def split: option.splits blob.splits)

lemma evaluate_point_report:
  assumes run: "evaluate_point w a fld fname sf spec p st = (r, st')"
    and tl: "tests_loop w (tests a) p (length (specs st)) spec st = (None, spec', st1)"
  shows "spec' = scored (tests a) p spec" and "spec_files (disk st') sf = Some (Pickled spec')"
proof -
  show "spec' = scored (tests a) p spec" using tests_loop_spec[OF tl] .
  let ?st2 = "st1\<lparr>specs := specs st1 @ [spec'],
                 disk := (disk st1)\<lparr>spec_files := (spec_files (disk st1))(sf \<mapsto> Pickled spec')\<rparr>\<rparr>"
  from run tl have "run_plots w (plots a) p fld (mode a) fname ?st2 = (r, st')"
    by (simp add: evaluate_point_def)
  from run_plots_frame[OF this] show "spec_files (disk st') sf = Some (Pickled spec')" by simp
qed

lemma evaluate_point_completes:
  assumes run: "evaluate_point w a fld fname sf spec p st = (None, st')"
  shows "\<exists>spec' st1. tests_loop w (tests a) p (length (specs st)) spec st = (None, spec', st1)"
proof -
  obtain r1 spec' st1 where tl:
    "tests_loop w (tests a) p (length (specs st)) spec st = (r1, spec', st1)"
    by (cases "tests_loop w (tests a) p (length (specs st)) spec st") auto
  with run have "r1 = None" by (cases r1) (simp_all add: evaluate_point_def)
  with tl show ?thesis by blast
qed

lemma evaluate_point_spec_files:
  assumes run: "evaluate_point w a fld fname sf spec p st = (r, st')"
  shows "spec_files (disk st') = spec_files (disk st) \<or>
         spec_files (disk st') = (spec_files (disk st))(sf \<mapsto> Pickled (scored (tests a) p spec))"
proof -
  obtain r1 spec' st1 where tl:
    "tests_loop w (tests a) p (length (specs st)) spec st = (r1, spec', st1)"
    by (cases "tests_loop w (tests a) p (length (specs st)) spec st") auto
  note tf = tests_loop_frame[OF tl]
  show ?thesis
  proof (cases r1)
    case (Some e)
    with run tl have "st' = st1" by (simp add: evaluate_point_def)
    with tf show ?thesis by simp
  next
    case None
    let ?st2 = "st1\<lparr>specs := specs st1 @ [spec'],
                 disk := (disk st1)\<lparr>spec_files := (spec_files (disk st1))(sf \<mapsto> Pickled spec')\<rparr>\<rparr>"
    from None run tl have "run_plots w (plots a) p fld (mode a) fname ?st2 = (r, st')"
      by (simp add: evaluate_point_def)
    from run_plots_frame[OF this] tf tests_loop_spec[OF tl[unfolded None]] show ?thesis by simp
  qed
qed

lemma grid_point_hit:
  assumes names: "file_names strat fld a cfg = (spec0, fname, mf, sf, pf)"
    and pred: "pred_files (disk st) pf = Some (Pickled p)"
    and rep: "spec_files (disk st) sf \<noteq> Some Corrupt"
    and spec: "spec = (case spec_files (disk st) sf of Some (Pickled sp) \<Rightarrow> sp | _ \<Rightarrow> spec0)"
  shows "grid_point w strat ds fld a series cfg st =
           evaluate_point w a fld fname sf spec p (emit (Print_path mf) st)"
  using grid_point_unfold[OF names load_cached_hit[OF pred rep, of spec0], of _ w ds series, OF refl]
  by (simp add: spec)

lemma grid_point_hit_facts:
  assumes names: "file_names strat fld a cfg = (spec0, fname, mf, sf, pf)"
    and pred: "pred_files (disk st) pf = Some (Pickled p)"
    and rep: "spec_files (disk st) sf \<noteq> Some Corrupt"
    and run: "grid_point w strat ds fld a series cfg st = (r, st')"
  shows "\<exists>E. trace st' = trace st @ E \<and> (\<forall>ev \<in> set E. \<not> is_model_call ev)"
    and "pred_files (disk st') = pred_files (disk st)"
    and "spec_files (disk st') = spec_files (disk st) \<or>
         spec_files (disk st') = (spec_files (disk st))
           (sf \<mapsto> Pickled (scored (tests a) p
              (case spec_files (disk st) sf of Some (Pickled sp) \<Rightarrow> sp | _ \<Rightarrow> spec0)))"
    and "r = None \<Longrightarrow> spec_files (disk st') sf =
           Some (Pickled (scored (tests a) p
              (case spec_files (disk st) sf of Some (Pickled sp) \<Rightarrow> sp | _ \<Rightarrow> spec0)))"
proof -
  let ?spec = "case spec_files (disk st) sf of Some (Pickled sp) \<Rightarrow> sp | _ \<Rightarrow> spec0"
  let ?st1 = "emit (Print_path mf) st"
  from grid_point_hit[OF names pred rep refl, of w ds series] run
  have ev: "evaluate_point w a fld fname sf ?spec p ?st1 = (r, st')" by simp
  from evaluate_point_frame(5)[OF ev] obtain E where
    E: "trace st' = trace ?st1 @ E" "\<forall>ev \<in> set E. \<not> is_model_call ev" by blast
  then have "trace st' = trace st @ (Print_path mf # E) \<and>
             (\<forall>ev \<in> set (Print_path mf # E). \<not> is_model_call ev)"
    by (simp add: emit_fields)
  then show "\<exists>E. trace st' = trace st @ E \<and> (\<forall>ev \<in> set E. \<not> is_model_call ev)" by blast
  from evaluate_point_frame(1)[OF ev] show "pred_files (disk st') = pred_files (disk st)"
    by (simp add: emit_fields)
  from evaluate_point_spec_files[OF ev]
  show "spec_files (disk st') = spec_files (disk st) \<or>
         spec_files (disk st') = (spec_files (disk st))(sf \<mapsto> Pickled (scored (tests a) p ?spec))"
    by (simp add: emit_fields)
  show "spec_files (disk st') sf = Some (Pickled (scored (tests a) p ?spec))" if "r = None"
  proof -
    from ev that evaluate_point_completes[of w a fld fname sf ?spec p ?st1 st']
    obtain spec' st1 where
      tl: "tests_loop w (tests a) p (length (specs ?st1)) ?spec ?st1 = (None, spec', st1)"
      by blast
    from evaluate_point_report[OF ev tl] show ?thesis by simp
  qed
qed

text \<open>What a grid point that completes leaves on disk.\<close>

lemma grid_point_leaves:
  assumes names: "file_names strat fld a cfg = (spec0, fname, mf, sf, pf)"
    and run: "grid_point w strat ds fld a series cfg st = (None, st1)"
  shows "\<exists>p spec. pred_files (disk st1) pf = Some (Pickled p) \<and>
           spec_files (disk st1) sf = Some (Pickled (scored (tests a) p spec)) \<and>
           (spec = spec0 \<or> spec_files (disk st) sf = Some (Pickled spec))"
proof -
  obtain spec cached failed where lc: "load_cached (disk st) spec0 sf pf = (spec, cached, failed)"
    by (cases "load_cached (disk st) spec0 sf pf") auto
  define st2 where "st2 = (if failed then emit Print_load_error (emit (Print_path mf) st)
                           else emit (Print_path mf) st)"
  have d2: "disk st2 = disk st" by (simp add: st2_def emit_fields)
  note gp = grid_point_unfold[OF names lc st2_def, of w ds series]
  note sp = load_cached_spec[OF lc]
  show ?thesis
  proof (cases cached)
    case (Some p)
    with gp run have ev: "evaluate_point w a fld fname sf spec p st2 = (None, st1)" by simp
    from evaluate_point_completes[OF ev] obtain spec' s where
      tl: "tests_loop w (tests a) p (length (specs st2)) spec st2 = (None, spec', s)" by blast
    from load_cached_Some[OF lc[unfolded Some]] evaluate_point_frame(1)[OF ev] d2
    have "pred_files (disk st1) pf = Some (Pickled p)" by simp
    with evaluate_point_report[OF ev tl] sp show ?thesis by blast
  next
    case None
    obtain r3 st3 where cp: "compute_prediction w strat ds fld a series spec mf pf st2 = (r3, st3)"
      by (cases "compute_prediction w strat ds fld a series spec mf pf st2")
    from gp run None cp obtain p where r3: "r3 = Inr p" by (cases r3) simp_all
    with gp run None cp have ev: "evaluate_point w a fld fname sf spec p st3 = (None, st1)" by simp
    from evaluate_point_completes[OF ev] obtain spec' s where
      tl: "tests_loop w (tests a) p (length (specs st3)) spec st3 = (None, spec', s)" by blast
    from compute_prediction_frame(7)[OF cp r3] evaluate_point_frame(1)[OF ev]
    have "pred_files (disk st1) pf = Some (Pickled p)" by simp
    with evaluate_point_report[OF ev tl] sp show ?thesis by blast
  qed
qed

text \<open>
  C6.  Fix a grid point and its file names.  If its prediction file loads (and the report
  does not fail to load), then the grid point makes no call on the strategy (no load,
  constructor, fit, save or predict), leaves the prediction files as they are, and, once
  the tests are through, has written the report with every test's score on the loaded
  prediction stored in the spec, whether or not a plot raises afterwards.  If the grid point
  completes and is then run again on the files it left, the second run makes no call on the
  strategy and leaves the reports and the predictions exactly as the first run left them.
\<close>

theorem cached_prediction_reused:
  assumes names: "file_names strat fld a cfg = (spec0, fname, mf, sf, pf)"
  shows "(\<forall>st p r st'.
            pred_files (disk st) pf = Some (Pickled p) \<and>
            spec_files (disk st) sf \<noteq> Some Corrupt \<and>
            grid_point w strat ds fld a series cfg st = (r, st') \<longrightarrow>
              (\<exists>E. trace st' = trace st @ E \<and> (\<forall>ev \<in> set E. \<not> is_model_call ev)) \<and>
              pred_files (disk st') = pred_files (disk st) \<and>
              (\<forall>spec' s.
                 tests_loop w (tests a) p (length (specs st))
                   (case spec_files (disk st) sf of Some (Pickled sp) \<Rightarrow> sp | _ \<Rightarrow> spec0)
                   (emit (Print_path mf) st) = (None, spec', s) \<longrightarrow>
                 spec_files (disk st') sf = Some (Pickled spec')) \<and>
              (r = None \<longrightarrow>
                 spec_files (disk st') sf =
                   Some (Pickled (scored (tests a) p
                     (case spec_files (disk st) sf of Some (Pickled sp) \<Rightarrow> sp | _ \<Rightarrow> spec0))))) \<and>
         (\<forall>st st1 st2 r2 st3.
            grid_point w strat ds fld a series cfg st = (None, st1) \<and>
            (\<forall>sp. spec_files (disk st) sf = Some (Pickled sp) \<longrightarrow> distinct (map fst sp)) \<and>
            disk st2 = disk st1 \<and>
            grid_point w strat ds fld a series cfg st2 = (r2, st3) \<longrightarrow>
              spec_files (disk st3) = spec_files (disk st1) \<and>
              pred_files (disk st3) = pred_files (disk st1) \<and>
              (\<exists>E. trace st3 = trace st2 @ E \<and> (\<forall>ev \<in> set E. \<not> is_model_call ev)))"
proof (intro conjI allI impI)
  fix st p r st'
  assume h: "pred_files (disk st) pf = Some (Pickled p) \<and>
            spec_files (disk st) sf \<noteq> Some Corrupt \<and>
            grid_point w strat ds fld a series cfg st = (r, st')"
  then have pred: "pred_files (disk st) pf = Some (Pickled p)"
    and rep: "spec_files (disk st) sf \<noteq> Some Corrupt"
    and run: "grid_point w strat ds fld a series cfg st = (r, st')"
    by simp_all
  note f = grid_point_hit_facts[OF names pred rep run]
  show "\<exists>E. trace st' = trace st @ E \<and> (\<forall>ev \<in> set E. \<not> is_model_call ev)" by (rule f(1))
  show "pred_files (disk st') = pred_files (disk st)" by (rule f(2))
  show "spec_files (disk st') sf =
          Some (Pickled (scored (tests a) p
            (case spec_files (disk st) sf of Some (Pickled sp) \<Rightarrow> sp | _ \<Rightarrow> spec0)))"
    if "r = None" using f(4)[OF that] .
  fix spec' s
  assume tl: "tests_loop w (tests a) p (length (specs st))
                (case spec_files (disk st) sf of Some (Pickled sp) \<Rightarrow> sp | _ \<Rightarrow> spec0)
                (emit (Print_path mf) st) = (None, spec', s)"
  from grid_point_hit[OF names pred rep refl, of w ds series] run
  have ev: "evaluate_point w a fld fname sf
              (case spec_files (disk st) sf of Some (Pickled sp) \<Rightarrow> sp | _ \<Rightarrow> spec0) p
              (emit (Print_path mf) st) = (r, st')" by simp
  from tl have tl': "tests_loop w (tests a) p (length (specs (emit (Print_path mf) st)))
                (case spec_files (disk st) sf of Some (Pickled sp) \<Rightarrow> sp | _ \<Rightarrow> spec0)
                (emit (Print_path mf) st) = (None, spec', s)"
    by (simp add: emit_fields)
  from evaluate_point_report(2)[OF ev tl']
  show "spec_files (disk st') sf = Some (Pickled spec')" .
next
  fix st st1 st2 r2 st3
  assume h: "grid_point w strat ds fld a series cfg st = (None, st1) \<and>
            (\<forall>sp. spec_files (disk st) sf = Some (Pickled sp) \<longrightarrow> distinct (map fst sp)) \<and>
            disk st2 = disk st1 \<and>
            grid_point w strat ds fld a series cfg st2 = (r2, st3)"
  then have first: "grid_point w strat ds fld a series cfg st = (None, st1)"
    and wf: "\<forall>sp. spec_files (disk st) sf = Some (Pickled sp) \<longrightarrow> distinct (map fst sp)"
    and same: "disk st2 = disk st1"
    and second: "grid_point w strat ds fld a series cfg st2 = (r2, st3)"
    by simp_all
  from grid_point_leaves[OF names first] obtain p spec where
    pred: "pred_files (disk st1) pf = Some (Pickled p)"
    and rep: "spec_files (disk st1) sf = Some (Pickled (scored (tests a) p spec))"
    and src: "spec = spec0 \<or> spec_files (disk st) sf = Some (Pickled spec)"
    by blast
  from names have "spec0 = make_spec (hypergrid_keys a) cfg"
    by (simp add: file_names_def Let_def)
  with src wf distinct_make_spec have dist: "distinct (map fst spec)" by blast
  from pred same have pred2: "pred_files (disk st2) pf = Some (Pickled p)" by simp
  from rep same have rep2: "spec_files (disk st2) sf \<noteq> Some Corrupt" by simp
  note f = grid_point_hit_facts[OF names pred2 rep2 second]
  from rep same have "(case spec_files (disk st2) sf of Some (Pickled sp) \<Rightarrow> sp | _ \<Rightarrow> spec0) =
      scored (tests a) p spec" by simp
  with f(3) scored_twice[OF dist, of "tests a" p]
  have "spec_files (disk st3) = spec_files (disk st2) \<or>
        spec_files (disk st3) = (spec_files (disk st2))(sf \<mapsto> Pickled (scored (tests a) p spec))"
    by simp
  moreover from rep same have
    "(spec_files (disk st2))(sf \<mapsto> Pickled (scored (tests a) p spec)) = spec_files (disk st2)"
    by (simp add: map_upd_triv)
  ultimately show "spec_files (disk st3) = spec_files (disk st1)" using same by auto
  from f(2) same show "pred_files (disk st3) = pred_files (disk st1)" by simp
  from f(1) show "\<exists>E. trace st3 = trace st2 @ E \<and> (\<forall>ev \<in> set E. \<not> is_model_call ev)" .
qed

lemma example_names_a:
  "file_names example_strategy ''e/'' (example_args [[PStr ''a'']] 7 (Plots_dict [])) [PStr ''a''] =
   ([(''name'', PStr ''a'')], ''a'', ''e/models/a'', ''e/logs/a_val_report'',
    ''e/predictions/a_val_pred_index_7_pred_horizon_3'')"
  by (simp add: ex_defs)

lemma example_first_run: "fst first_run = None"
  by (simp add: first_run_def ex_defs)

theorem cached_prediction_reused_witness:
  "fst first_run = None \<and>
   spec_files (disk (snd second_run)) = spec_files (disk (snd first_run)) \<and>
   pred_files (disk (snd second_run)) = pred_files (disk (snd first_run)) \<and>
   filter is_model_call (trace (snd second_run)) = [] \<and>
   filter is_fit (trace (snd first_run)) = [Call_fit []]"
proof -
  let ?a = "example_args [[PStr ''a'']] 7 (Plots_dict [])"
  let ?st0 = "initial_state ?a empty_disk"
  let ?st2 = "initial_state ?a (disk (snd first_run))"
  have first: "grid_point example_world example_strategy (example_dataset []) ''e/'' ?a
      (val_ts (example_dataset [])) [PStr ''a''] ?st0 = (None, snd first_run)"
    using example_first_run by (metis first_run_def prod.collapse)
  have wf: "\<forall>sp. spec_files (disk ?st0) ''e/logs/a_val_report'' = Some (Pickled sp) \<longrightarrow>
      distinct (map fst sp)"
    by (simp add: initial_state_def empty_disk_def)
  have same: "disk ?st2 = disk (snd first_run)" by (simp add: initial_state_def)
  have second: "grid_point example_world example_strategy (example_dataset []) ''e/'' ?a
      (val_ts (example_dataset [])) [PStr ''a''] ?st2 = (fst second_run, snd second_run)"
    by (simp add: second_run_def)
  from cached_prediction_reused[OF example_names_a, of example_world "example_dataset []"
      "val_ts (example_dataset [])"] first wf same second
  have "spec_files (disk (snd second_run)) = spec_files (disk (snd first_run)) \<and>
        pred_files (disk (snd second_run)) = pred_files (disk (snd first_run)) \<and>
        (\<exists>E. trace (snd second_run) = trace ?st2 @ E \<and> (\<forall>ev \<in> set E. \<not> is_model_call ev))"
    by blast
  moreover have "trace ?st2 = []" by (simp add: initial_state_def)
  ultimately have "spec_files (disk (snd second_run)) = spec_files (disk (snd first_run))"
    "pred_files (disk (snd second_run)) = pred_files (disk (snd first_run))"
    "filter is_model_call (trace (snd second_run)) = []"
    by (auto simp: filter_empty_conv)
  moreover have "filter is_fit (trace (snd first_run)) = [Call_fit []]"
    by (simp add: first_run_def ex_defs)
  ultimately show ?thesis using example_first_run by blast
qed

subsection \<open>A cached file that fails to load\<close>

lemma same_but_emit:
  "same_but sf pf s t \<Longrightarrow> same_but sf pf (emit ev s) (emit ev t)"
  by (simp add: same_but_def emit_def)

lemma obtain_model_same:
  assumes rel: "same_but sf pf s t"
  shows "fst (obtain_model strat ds fld a spec mf s) = fst (obtain_model strat ds fld a spec mf t) \<and>
         same_but sf pf (snd (obtain_model strat ds fld a spec mf s))
                        (snd (obtain_model strat ds fld a spec mf t))"
  using rel
  by (simp add: obtain_model_def same_but_def emit_def Let_def split: option.splits sum.splits)

lemma compute_prediction_same:
  assumes rel: "same_but sf pf s t"
  shows "fst (compute_prediction w strat ds fld a series spec mf pf s) =
           fst (compute_prediction w strat ds fld a series spec mf pf t) \<and>
         same_but sf pf (snd (compute_prediction w strat ds fld a series spec mf pf s))
                        (snd (compute_prediction w strat ds fld a series spec mf pf t)) \<and>
         (\<forall>p. fst (compute_prediction w strat ds fld a series spec mf pf s) = Inr p \<longrightarrow>
              pred_files (disk (snd (compute_prediction w strat ds fld a series spec mf pf s))) =
              pred_files (disk (snd (compute_prediction w strat ds fld a series spec mf pf t))))"
proof -
  obtain r1 s1 where os: "obtain_model strat ds fld a spec mf s = (r1, s1)"
    by (cases "obtain_model strat ds fld a spec mf s")
  obtain r1' t1 where ot: "obtain_model strat ds fld a spec mf t = (r1', t1)"
    by (cases "obtain_model strat ds fld a spec mf t")
  from obtain_model_same[OF rel, of strat ds fld a spec mf] os ot
  have r: "r1' = r1" and rel1: "same_but sf pf s1 t1" by simp_all
  show ?thesis
  proof (cases r1)
    case (Inl e)
    with os ot r rel1 show ?thesis by (simp add: compute_prediction_def)
  next
    case (Inr model)
    from rel1 have eqs: "model_input s1 = model_input t1"
      "model_files (disk s1) = model_files (disk t1)"
      "plot_files (disk s1) = plot_files (disk t1)"
      "\<forall>f. f \<noteq> sf \<longrightarrow> spec_files (disk s1) f = spec_files (disk t1) f"
      "\<forall>f. f \<noteq> pf \<longrightarrow> pred_files (disk s1) f = pred_files (disk t1) f"
      "best_results s1 = best_results t1" "best_strategy s1 = best_strategy t1"
      "specs s1 = specs t1"
      "filter (\<lambda>ev. ev \<noteq> Print_load_error) (trace s1) =
       filter (\<lambda>ev. ev \<noteq> Print_load_error) (trace t1)"
      by (simp_all add: same_but_def)
    have ext: "(pred_files (disk s1))(pf \<mapsto> x) = (pred_files (disk t1))(pf \<mapsto> x)" for x
      using eqs(5) by auto
    show ?thesis
      using eqs ext
      by (simp add: compute_prediction_def os ot r Inr same_but_def emit_def Let_def
          split: sum.splits prod.splits)
  qed
qed


lemma tests_loop_same:
  "same_but sf pf s t \<Longrightarrow>
   fst (tests_loop w ts p addr spec s) = fst (tests_loop w ts p addr spec t) \<and>
   fst (snd (tests_loop w ts p addr spec s)) = fst (snd (tests_loop w ts p addr spec t)) \<and>
   same_but sf pf (snd (snd (tests_loop w ts p addr spec s))) (snd (snd (tests_loop w ts p addr spec t)))"
proof (induction ts arbitrary: spec s t)
  case Nil
  then show ?case by simp
next
  case (Cons t0 ts)
  from Cons.prems have br: "best_results s = best_results t" by (simp add: same_but_def)
  show ?case
  proof (cases "eval t0 p")
    case (Inl e)
    with Cons.prems show ?thesis by simp
  next
    case (Inr score)
    show ?thesis
    proof (cases "improves (value_ops w) t0 score (map_of (best_results t) (metric t0))")
      case (Inl e)
      with Cons.prems Inr br show ?thesis by simp
    next
      case b: (Inr b)
      show ?thesis
      proof (cases b)
        case True
        let ?up = "\<lambda>u. (emit (Print_new_best (metric t0) score) u)
               \<lparr>best_results := AList.update (metric t0) (Some score) (best_results u),
                best_strategy := AList.update (metric t0) (Some addr) (best_strategy u)\<rparr>"
        from Cons.prems have "same_but sf pf (?up s) (?up t)"
          by (simp add: same_but_def emit_def)
        from Cons.IH[OF this, of "AList.update (metric t0) score spec"] Inr b True br
        show ?thesis by (simp add: Let_def)
      next
        case False
        from Cons.IH[OF Cons.prems, of "AList.update (metric t0) score spec"] Inr b False br
        show ?thesis by (simp add: Let_def)
      qed
    qed
  qed
qed

lemma plots_loop_same:
  "same_but sf pf s t \<Longrightarrow>
   fst (plots_loop w items p fld md fname s) = fst (plots_loop w items p fld md fname t) \<and>
   same_but sf pf (snd (plots_loop w items p fld md fname s))
                  (snd (plots_loop w items p fld md fname t)) \<and>
   (spec_files (disk s) = spec_files (disk t) \<longrightarrow>
      spec_files (disk (snd (plots_loop w items p fld md fname s))) =
      spec_files (disk (snd (plots_loop w items p fld md fname t))))"
proof (induction items arbitrary: s t)
  case Nil
  then show ?case by simp
next
  case (Cons it items)
  obtain k kw where it: "it = (k, kw)" by (cases it)
  show ?case
  proof (cases "plot_attr w p k")
    case None
    from Cons.IH[OF same_but_emit[OF Cons.prems], of "Print_plot_unavailable k"] None it
    show ?thesis by (simp add: emit_def)
  next
    case (Some f)
    show ?thesis
    proof (cases "f kw")
      case None
      let ?up = "\<lambda>u. (emit (Call_plot k kw) u)\<lparr>disk := (disk (emit (Call_plot k kw) u))
                       \<lparr>plot_files := insert (plot_fname fld k md fname)
                                        (plot_files (disk (emit (Call_plot k kw) u)))\<rparr>\<rparr>"
      from Cons.prems have "same_but sf pf (?up s) (?up t)"
        by (simp add: same_but_def emit_def)
      from Cons.IH[OF this] None it \<open>plot_attr w p k = Some f\<close>
      show ?thesis by (simp add: Let_def emit_def)
    next
      case (Some e)
      with Cons.prems it \<open>plot_attr w p k = Some f\<close>
      show ?thesis by (simp add: Let_def same_but_def emit_def)
    qed
  qed
qed

lemma run_plots_same:
  "same_but sf pf s t \<Longrightarrow>
   fst (run_plots w pl p fld md fname s) = fst (run_plots w pl p fld md fname t) \<and>
   same_but sf pf (snd (run_plots w pl p fld md fname s)) (snd (run_plots w pl p fld md fname t)) \<and>
   (spec_files (disk s) = spec_files (disk t) \<longrightarrow>
      spec_files (disk (snd (run_plots w pl p fld md fname s))) =
      spec_files (disk (snd (run_plots w pl p fld md fname t))))"
  using plots_loop_same[of sf pf s t w _ p fld md fname]
  by (cases pl) (simp_all add: run_plots_def)

lemma evaluate_point_same:
  assumes rel: "same_but sf pf s t"
  shows "fst (evaluate_point w a fld fname sf spec p s) =
           fst (evaluate_point w a fld fname sf spec p t) \<and>
         same_but sf pf (snd (evaluate_point w a fld fname sf spec p s))
                        (snd (evaluate_point w a fld fname sf spec p t)) \<and>
         (fst (evaluate_point w a fld fname sf spec p s) = None \<longrightarrow>
            spec_files (disk (snd (evaluate_point w a fld fname sf spec p s))) =
            spec_files (disk (snd (evaluate_point w a fld fname sf spec p t))))"
proof -
  from rel have sp: "specs s = specs t" by (simp add: same_but_def)
  obtain r1 spec' s1 where ts: "tests_loop w (tests a) p (length (specs s)) spec s = (r1, spec', s1)"
    by (cases "tests_loop w (tests a) p (length (specs s)) spec s") auto
  obtain r1' spec'' t1 where tt: "tests_loop w (tests a) p (length (specs t)) spec t = (r1', spec'', t1)"
    by (cases "tests_loop w (tests a) p (length (specs t)) spec t") auto
  from tests_loop_same[OF rel, of w "tests a" p "length (specs s)" spec] ts tt sp
  have eq: "r1' = r1" "spec'' = spec'" and rel1: "same_but sf pf s1 t1" by simp_all
  show ?thesis
  proof (cases r1)
    case (Some e)
    with ts tt eq rel1 show ?thesis by (simp add: evaluate_point_def)
  next
    case None
    let ?up = "\<lambda>u. u\<lparr>specs := specs u @ [spec'],
                 disk := (disk u)\<lparr>spec_files := (spec_files (disk u))(sf \<mapsto> Pickled spec')\<rparr>\<rparr>"
    from rel1 have rel2: "same_but sf pf (?up s1) (?up t1)"
      by (simp add: same_but_def)
    from rel1 have "spec_files (disk (?up s1)) = spec_files (disk (?up t1))"
      by (auto simp: same_but_def)
    with run_plots_same[OF rel2, of w "plots a" p fld "mode a" fname] None ts tt eq
    show ?thesis by (simp add: evaluate_point_def)
  qed
qed

lemma load_cached_corrupt:
  assumes "spec_files (disk st) sf = Some Corrupt \<or> pred_files (disk st) pf = Some Corrupt"
  shows "\<exists>spec. load_cached (disk st) spec0 sf pf = (spec, None, True) \<and>
               load_cached (disk (as_miss sf pf st)) spec0 sf pf = (spec, None, False)"
  using assms
  by (auto simp: load_cached_def as_miss_def Let_def split: option.splits blob.splits)

lemma same_but_as_miss: "same_but sf pf st (as_miss sf pf st)"
  by (simp add: same_but_def as_miss_def)

lemma obtain_model_calls:
  "obtain_model strat ds fld a spec mf st = (r, st1) \<Longrightarrow>
   \<exists>E. trace st1 = trace st @ E \<and> (Call_load mf \<in> set E \<or> Call_init spec \<in> set E)"
  by (auto simp: obtain_model_def emit_def Let_def split: option.splits sum.splits)

lemma compute_prediction_calls:
  assumes run: "compute_prediction w strat ds fld a series spec mf pf st = (r, st')"
  shows "\<exists>E. trace st' = trace st @ E \<and> (Call_load mf \<in> set E \<or> Call_init spec \<in> set E)"
  using run
proof (cases rule: compute_prediction_cases)
  case (no_model e)
  from obtain_model_calls[OF no_model(1)] show ?thesis .
next
  case (assertion model st1 inp)
  from obtain_model_calls[OF assertion(1)] assertion(5) show ?thesis by simp
next
  case (no_prediction model st1 inp e)
  from obtain_model_calls[OF no_prediction(1)] obtain E where
    "trace st1 = trace st @ E" "Call_load mf \<in> set E \<or> Call_init spec \<in> set E" by blast
  with no_prediction(5) have
    "trace st' = trace st @ (E @ [Call_predict inp (predictive_horizon a) (eval_kwargs a)]) \<and>
     (Call_load mf \<in> set (E @ [Call_predict inp (predictive_horizon a) (eval_kwargs a)]) \<or>
      Call_init spec \<in> set (E @ [Call_predict inp (predictive_horizon a) (eval_kwargs a)]))"
    by (auto simp: emit_def)
  then show ?thesis by blast
next
  case (predicted model st1 inp raw p)
  from obtain_model_calls[OF predicted(1)] obtain E where
    "trace st1 = trace st @ E" "Call_load mf \<in> set E \<or> Call_init spec \<in> set E" by blast
  with predicted(7) have
    "trace st' = trace st @ (E @ [Call_predict inp (predictive_horizon a) (eval_kwargs a)]) \<and>
     (Call_load mf \<in> set (E @ [Call_predict inp (predictive_horizon a) (eval_kwargs a)]) \<or>
      Call_init spec \<in> set (E @ [Call_predict inp (predictive_horizon a) (eval_kwargs a)]))"
    by (auto simp: emit_def)
  then show ?thesis by blast
qed

end
